theory Spec2Isabelle
  imports Main
begin

section \<open>GeoJSON values\<close>

text \<open>
  Coordinates are nested JSON arrays of numbers. The program never computes with the
  numbers: it copies them and compares them for equality (\<^verbatim>\<open>isEqual\<close>), so integers
  stand for them here.
\<close>

datatype coord = Num int | Arr "coord list"

text \<open>The \<^verbatim>\<open>properties\<close> member: an opaque key/value object, copied as it is.\<close>

type_synonym props = "(string \<times> string) list"

record geometry =
  gtype :: string
  gcoordinates :: coord

text \<open>
  A GeoJSON Feature object. \<open>gid = None\<close> is a missing \<^verbatim>\<open>id\<close>,
  \<open>ggeometry = None\<close> is \<^verbatim>\<open>geometry: null\<close>.
\<close>

record gj_feature =
  gid :: "string option"
  gproperties :: props
  ggeometry :: "geometry option"

text \<open>
  What a caller can hand to \<^verbatim>\<open>api.add\<close> and \<^verbatim>\<open>api.set\<close>. \<open>Nullish\<close> is \<^verbatim>\<open>null\<close> or
  \<^verbatim>\<open>undefined\<close>, of which no property can be read. \<open>Other\<close> stands for every other
  value that is none of the three shapes (also an object whose \<^verbatim>\<open>type\<close> is
  \<^verbatim>\<open>FeatureCollection\<close> but whose \<^verbatim>\<open>features\<close> is not an array).
\<close>

datatype geojson =
    FeatureCollection "gj_feature list"
  | Feature gj_feature
  | Geometry geometry
  | Nullish
  | Other

section \<open>Errors and return values\<close>

text \<open>
  \<open>Error m\<close> is \<^verbatim>\<open>throw new Error(m)\<close>. \<open>TypeError\<close> is what the runtime raises
  when a property of \<^verbatim>\<open>undefined\<close> or \<^verbatim>\<open>null\<close> is read or when \<^verbatim>\<open>new\<close> is applied to what
  is no constructor, and what the constructor of composites raises. \<open>NotAFeature\<close>
  stands for the one run that leaves what the sources and the specification determine:
  \<^verbatim>\<open>ctx.store.add\<close> handed an object that is no feature model (see \<open>add_feature\<close>). No
  theorem below says what happens there.
\<close>

datatype error = Error string | TypeError | NotAFeature

text \<open>\<open>Api\<close> is \<^verbatim>\<open>return api\<close>, \<open>Undefined\<close> is a bare \<^verbatim>\<open>return\<close>.\<close>

datatype retval = Api | Undefined

section \<open>Feature models\<close>

text \<open>
  The constructor a feature was built with; \<^verbatim>\<open>instanceof MultiFeature\<close> reads it.
\<close>

datatype model = Polygon | LineString | Point | MultiFeature

text \<open>The six keys of the object literal \<^verbatim>\<open>featureTypes\<close> of api.js, lines 11 to 18.\<close>

definition own_model :: "string \<Rightarrow> model option" where
  "own_model t =
     (if t = ''Polygon'' then Some Polygon
      else if t = ''LineString'' then Some LineString
      else if t = ''Point'' then Some Point
      else if t = ''MultiPolygon'' then Some MultiFeature
      else if t = ''MultiLineString'' then Some MultiFeature
      else if t = ''MultiPoint'' then Some MultiFeature
      else None)"

text \<open>
  The members every object literal inherits from \<^verbatim>\<open>Object.prototype\<close>. Of these only
  \<^verbatim>\<open>constructor\<close> (the function \<^verbatim>\<open>Object\<close>) can be applied with \<^verbatim>\<open>new\<close>.
\<close>

definition object_members :: "string list" where
  "object_members =
     [''constructor'', ''hasOwnProperty'', ''isPrototypeOf'', ''propertyIsEnumerable'',
      ''toLocaleString'', ''toString'', ''valueOf'', ''__proto__'', ''__defineGetter__'',
      ''__defineSetter__'', ''__lookupGetter__'', ''__lookupSetter__'']"

text \<open>
  The lookup \<^verbatim>\<open>featureTypes[feature.geometry.type]\<close> of line 76: one of the six
  constructors, an inherited member, or \<^verbatim>\<open>undefined\<close> (\<open>None\<close>).
\<close>

datatype lookup = Model model | Inherited string

definition featureTypes :: "string \<Rightarrow> lookup option" where
  "featureTypes t =
     (case own_model t of
        Some m \<Rightarrow> Some (Model m)
      | None \<Rightarrow> if t \<in> set object_members then Some (Inherited t) else None)"

record feature =
  fid :: string
  ftype :: string
  fmodel :: model
  properties :: props
  coordinates :: coord

section \<open>The feature store\<close>

text \<open>
  Modelled from the spec: the module \<^verbatim>\<open>store\<close> is not among the sources. Section 3 and
  4.1 of the specification give it a mapping from id to feature with a stable
  iteration order, an ordered selection that is pruned on deletion, render
  notifications, and a render batch that coalesces them.
\<close>

record store =
  features :: "string \<Rightarrow> feature option"
  featureIds :: "string list"
  selectedIds :: "string list"
  renders :: nat
  batch_open :: bool

text \<open>Modelled from the spec: \<^verbatim>\<open>get(id)\<close> returns the feature or \<^verbatim>\<open>undefined\<close>.\<close>

definition store_get :: "store \<Rightarrow> string \<Rightarrow> feature option" where
  "store_get s i = features s i"

text \<open>Modelled from the spec: \<^verbatim>\<open>add(feature)\<close> inserts or replaces by id.\<close>

definition store_add :: "feature \<Rightarrow> store \<Rightarrow> store" where
  "store_add f s =
     s\<lparr>features := (features s)(fid f := Some f),
       featureIds := (if fid f \<in> set (featureIds s) then featureIds s
                      else featureIds s @ [fid f])\<rparr>"

definition store_getAllIds :: "store \<Rightarrow> string list" where
  "store_getAllIds s = featureIds s"

definition store_getAll :: "store \<Rightarrow> feature list" where
  "store_getAll s = List.map_filter (features s) (featureIds s)"

definition store_getSelectedIds :: "store \<Rightarrow> string list" where
  "store_getSelectedIds s = selectedIds s"

text \<open>
  Modelled from the spec: \<^verbatim>\<open>render()\<close> requests a render notification; while a render
  batch is open the request is coalesced into the one the batch commits.
\<close>

definition store_render :: "store \<Rightarrow> store" where
  "store_render s = (if batch_open s then s else s\<lparr>renders := Suc (renders s)\<rparr>)"

definition store_createRenderBatch :: "store \<Rightarrow> store" where
  "store_createRenderBatch s = s\<lparr>batch_open := True\<rparr>"

text \<open>The function \<^verbatim>\<open>createRenderBatch\<close> returns: it commits exactly one render.\<close>

definition store_closeRenderBatch :: "store \<Rightarrow> store" where
  "store_closeRenderBatch s = s\<lparr>batch_open := False, renders := Suc (renders s)\<rparr>"

text \<open>
  Modelled from the spec: \<^verbatim>\<open>delete(ids, opts)\<close> removes the listed features and prunes
  them from the selection; \<^verbatim>\<open>opts.silent\<close> suppresses the render notification.
\<close>

definition store_delete :: "string list \<Rightarrow> bool \<Rightarrow> store \<Rightarrow> store" where
  "store_delete ids silent s =
     (let s' = s\<lparr>features := (\<lambda>i. if i \<in> set ids then None else features s i),
                 featureIds := filter (\<lambda>i. i \<notin> set ids) (featureIds s),
                 selectedIds := filter (\<lambda>i. i \<notin> set ids) (selectedIds s)\<rparr>
      in if silent then s' else store_render s')"

text \<open>
  Modelled from the spec: \<^verbatim>\<open>setSelected(ids, {silent: true})\<close> makes the selection the
  given ids that are in the store; ids that are not are dropped, and a missing list
  selects nothing.
\<close>

definition store_setSelected :: "string list option \<Rightarrow> store \<Rightarrow> store" where
  "store_setSelected ids s =
     s\<lparr>selectedIds :=
         remdups (filter (\<lambda>i. features s i \<noteq> None) (case ids of None \<Rightarrow> [] | Some xs \<Rightarrow> xs))\<rparr>"

section \<open>The mode controller and the context\<close>

text \<open>
  Modelled from the spec: \<^verbatim>\<open>Constants.modes\<close> is not among the sources; section 3 gives
  simple-select, direct-select and one mode per drawing variant.
\<close>

datatype mode = SIMPLE_SELECT | DIRECT_SELECT | DRAW string

record mode_options =
  opt_featureIds :: "string list option"
  opt_featureId :: "string option"

text \<open>
  The external collaborators of api.js: the validator \<^verbatim>\<open>geojsonhint.hint\<close>, whose
  result is a list of issues with a level and a message, and the id generator
  \<^verbatim>\<open>hat\<close>, whose successive results are \<open>hat d 0\<close>, \<open>hat d 1\<close>, ...
\<close>

text \<open>The one event api.js fires on the map: \<^verbatim>\<open>Constants.events.CREATE\<close>.\<close>

datatype event = CREATE

record hint_issue =
  level :: string
  message :: string

record deps =
  hint :: "geojson \<Rightarrow> hint_issue list"
  hat :: "nat \<Rightarrow> string"

text \<open>
  The shared context \<^verbatim>\<open>ctx\<close>: the store, the mode controller (\<^verbatim>\<open>ctx.events\<close>: its
  current mode and the full transitions it was asked for), the events fired on
  \<^verbatim>\<open>ctx.map\<close>, and how many ids \<^verbatim>\<open>hat\<close> has produced.
\<close>

record ctx =
  store :: store
  events_mode :: mode
  events_transitions :: "(mode \<times> mode_options option) list"
  map_fired :: "(event \<times> gj_feature list) list"
  hat_calls :: nat

definition hat_next :: "deps \<Rightarrow> ctx \<Rightarrow> ctx \<times> string" where
  "hat_next d c = (c\<lparr>hat_calls := Suc (hat_calls c)\<rparr>, hat d (hat_calls c))"

text \<open>
  Modelled from the spec: \<^verbatim>\<open>ctx.events.changeMode\<close> performs the full transition: the
  controller's mode becomes the requested one.
\<close>

definition events_changeMode :: "mode \<Rightarrow> mode_options option \<Rightarrow> ctx \<Rightarrow> ctx" where
  "events_changeMode m opts c =
     c\<lparr>events_mode := m, events_transitions := events_transitions c @ [(m, opts)]\<rparr>"

definition events_getMode :: "ctx \<Rightarrow> mode" where
  "events_getMode c = events_mode c"

text \<open>
  Modelled from the spec: the feature model constructors are not among the sources. A
  feature takes its id, properties, type tag and coordinates from the GeoJSON it is
  built from; its id is generated when the GeoJSON has none. The type tag of a feature is
  one of the six variants (section 3): the constructor of composites builds the three
  composite variants and raises a \<open>TypeError\<close> for any other tag, and changes nothing
  then.
\<close>

definition multi_types :: "string list" where
  "multi_types = [''MultiPoint'', ''MultiLineString'', ''MultiPolygon'']"

definition new_feature ::
  "deps \<Rightarrow> ctx \<Rightarrow> model \<Rightarrow> string option \<Rightarrow> props \<Rightarrow> geometry \<Rightarrow> error + ctx \<times> feature" where
  "new_feature d c m i p g =
     (if m = MultiFeature \<and> gtype g \<notin> set multi_types then Inl TypeError
      else (let (c', i') = (case i of Some x \<Rightarrow> (c, x) | None \<Rightarrow> hat_next d c)
            in Inr (c', \<lparr>fid = i', ftype = gtype g, fmodel = m, properties = p,
                         coordinates = gcoordinates g\<rparr>)))"

definition getCoordinates :: "feature \<Rightarrow> coord" where
  "getCoordinates f = coordinates f"

definition incomingCoords :: "coord \<Rightarrow> feature \<Rightarrow> feature" where
  "incomingCoords cs f = f\<lparr>coordinates := cs\<rparr>"

definition toGeoJSON :: "feature \<Rightarrow> gj_feature" where
  "toGeoJSON f =
     \<lparr>gid = Some (fid f), gproperties = properties f,
      ggeometry = Some \<lparr>gtype = ftype f, gcoordinates = getCoordinates f\<rparr>\<rparr>"

section \<open>api.add and api.set\<close>

text \<open>
  Modelled from the spec: \<^verbatim>\<open>geojson-normalize\<close> turns a single Feature or a bare
  Geometry into a FeatureCollection; it has no result for anything else.
\<close>

definition normalize :: "geojson \<Rightarrow> gj_feature list option" where
  "normalize gj =
     (case gj of
        FeatureCollection fs \<Rightarrow> Some fs
      | Feature f \<Rightarrow> Some [f]
      | Geometry g \<Rightarrow> Some [\<lparr>gid = None, gproperties = [], ggeometry = Some g\<rparr>]
      | Nullish \<Rightarrow> None
      | Other \<Rightarrow> None)"

text \<open>
  The callback of \<^verbatim>\<open>featureCollection.features.map\<close> (api.js, lines 67 to 91). An
  exception leaves the context as it is at the \<^verbatim>\<open>throw\<close>; the id is assigned (an
  empty id is falsy, as a missing one) before the geometry is looked at. \<^verbatim>\<open>isEqual\<close> of
  lodash is structural equality. When the type tag names an inherited member, the lookup
  is not \<^verbatim>\<open>undefined\<close> and line 78 does not throw: \<^verbatim>\<open>new\<close> raises a \<open>TypeError\<close> for a
  member that is no constructor, and \<^verbatim>\<open>new Object(ctx, feature)\<close> is the context itself,
  which then goes to \<^verbatim>\<open>ctx.store.add\<close>.
\<close>

definition add_feature :: "deps \<Rightarrow> ctx \<Rightarrow> gj_feature \<Rightarrow> ctx \<times> (error + string)" where
  "add_feature d c feature =
     (let (c1, i) = (case gid feature of
                       None \<Rightarrow> hat_next d c
                     | Some x \<Rightarrow> if x = [] then hat_next d c else (c, x))
      in case ggeometry feature of
           None \<Rightarrow> (c1, Inl (Error ''Invalid geometry: null''))
         | Some g \<Rightarrow>
             if (case store_get (store c1) i of None \<Rightarrow> True | Some e \<Rightarrow> ftype e \<noteq> gtype g)
             then (case featureTypes (gtype g) of
                     None \<Rightarrow> (c1, Inl (Error (''Invalid geometry type: '' @ gtype g @ ''.'')))
                   | Some (Inherited k) \<Rightarrow>
                       if k = ''constructor'' then (c1, Inl NotAFeature) else (c1, Inl TypeError)
                   | Some (Model m) \<Rightarrow>
                       (case new_feature d c1 m (Some i) (gproperties feature) g of
                          Inl e \<Rightarrow> (c1, Inl e)
                        | Inr (c2, internalFeature) \<Rightarrow>
                            (c2\<lparr>store := store_add internalFeature (store c2)\<rparr>, Inr i)))
             else (case store_get (store c1) i of
                     None \<Rightarrow> (c1, Inl TypeError)
                   | Some e \<Rightarrow>
                       (let e1 = e\<lparr>properties := gproperties feature\<rparr>;
                            e2 = (if getCoordinates e1 \<noteq> gcoordinates g
                                  then incomingCoords (gcoordinates g) e1 else e1)
                        in (c1\<lparr>store := (store c1)\<lparr>features := (features (store c1))(i := Some e2)\<rparr>\<rparr>,
                            Inr i))))"

text \<open>The \<^verbatim>\<open>map\<close> itself: left to right, stopping at the first exception.\<close>

fun add_features :: "deps \<Rightarrow> ctx \<Rightarrow> gj_feature list \<Rightarrow> ctx \<times> (error + string list)" where
  "add_features d c [] = (c, Inr [])"
| "add_features d c (f # fs) =
     (case add_feature d c f of
        (c1, Inl e) \<Rightarrow> (c1, Inl e)
      | (c1, Inr i) \<Rightarrow>
          (case add_features d c1 fs of
             (c2, Inl e) \<Rightarrow> (c2, Inl e)
           | (c2, Inr ids) \<Rightarrow> (c2, Inr (i # ids))))"

text \<open>
  \<^verbatim>\<open>api.add\<close> (lines 59 to 95). The deep copy \<^verbatim>\<open>JSON.parse(JSON.stringify(...))\<close> is
  the identity on values.
\<close>

definition api_add :: "deps \<Rightarrow> ctx \<Rightarrow> geojson \<Rightarrow> ctx \<times> (error + string list)" where
  "api_add d c geojson =
     (case filter (\<lambda>e. level e \<noteq> ''message'') (hint d geojson) of
        e # _ \<Rightarrow> (c, Inl (Error (message e)))
      | [] \<Rightarrow>
          (case normalize geojson of
             None \<Rightarrow> (c, Inl TypeError)
           | Some fs \<Rightarrow>
               (case add_features d c fs of
                  (c1, Inl e) \<Rightarrow> (c1, Inl e)
                | (c1, Inr ids) \<Rightarrow> (c1\<lparr>store := store_render (store c1)\<rparr>, Inr ids))))"

text \<open>\<^verbatim>\<open>api.getMode\<close> (lines 158 to 160).\<close>

definition api_getMode :: "ctx \<Rightarrow> mode" where
  "api_getMode c = events_getMode c"

text \<open>\<^verbatim>\<open>api.delete\<close> (lines 112 to 123); it always returns \<^verbatim>\<open>api\<close>.\<close>

definition api_delete :: "ctx \<Rightarrow> string list \<Rightarrow> ctx" where
  "api_delete c ids =
     (let c1 = c\<lparr>store := store_delete ids True (store c)\<rparr>
      in if api_getMode c1 = DIRECT_SELECT \<and> length (store_getSelectedIds (store c1)) = 0
         then events_changeMode SIMPLE_SELECT None c1
         else c1\<lparr>store := store_render (store c1)\<rparr>)"

text \<open>\<^verbatim>\<open>api.deleteAll\<close> (lines 125 to 136); it always returns \<^verbatim>\<open>api\<close>.\<close>

definition api_deleteAll :: "ctx \<Rightarrow> ctx" where
  "api_deleteAll c =
     (let c1 = c\<lparr>store := store_delete (store_getAllIds (store c)) True (store c)\<rparr>
      in if api_getMode c1 = DIRECT_SELECT
         then events_changeMode SIMPLE_SELECT None c1
         else c1\<lparr>store := store_render (store c1)\<rparr>)"

text \<open>
  \<^verbatim>\<open>api.set\<close> (lines 41 to 57). Reading \<^verbatim>\<open>featureCollection.type\<close> of \<^verbatim>\<open>null\<close> or
  \<^verbatim>\<open>undefined\<close> raises before the guard can throw. An exception of \<^verbatim>\<open>api.add\<close> skips
  the rest, also the \<^verbatim>\<open>renderBatch()\<close> of line 55.
\<close>

definition api_set :: "deps \<Rightarrow> ctx \<Rightarrow> geojson \<Rightarrow> ctx \<times> (error + string list)" where
  "api_set d c featureCollection =
     (case featureCollection of
        FeatureCollection fs \<Rightarrow>
          (let c1 = c\<lparr>store := store_createRenderBatch (store c)\<rparr>;
               toDelete = store_getAllIds (store c1)
           in case api_add d c1 featureCollection of
                (c2, Inl e) \<Rightarrow> (c2, Inl e)
              | (c2, Inr newIds) \<Rightarrow>
                  (let toDelete1 = filter (\<lambda>i. i \<notin> set newIds) toDelete;
                       c3 = (if length toDelete1 \<noteq> 0 then api_delete c2 toDelete1 else c2)
                   in (c3\<lparr>store := store_closeRenderBatch (store c3)\<rparr>, Inr newIds)))
      | Nullish \<Rightarrow> (c, Inl TypeError)
      | _ \<Rightarrow> (c, Inl (Error ''Invalid FeatureCollection'')))"

section \<open>api.changeMode\<close>

text \<open>
  Modelled from the spec: \<^verbatim>\<open>lib/string_sets_are_equal\<close> is not among the sources; the
  specification compares the two id lists as unordered sets.
\<close>

definition stringSetsAreEqual :: "string list \<Rightarrow> string list \<Rightarrow> bool" where
  "stringSetsAreEqual a b = (set a = set b)"

text \<open>
  \<^verbatim>\<open>api.changeMode\<close> (lines 138 to 156); it always returns \<^verbatim>\<open>api\<close>. A missing
  \<^verbatim>\<open>modeOptions\<close> is the record with both members \<open>None\<close>.
\<close>

definition api_changeMode :: "ctx \<Rightarrow> mode \<Rightarrow> mode_options \<Rightarrow> ctx" where
  "api_changeMode c m modeOptions =
     (if m = SIMPLE_SELECT \<and> api_getMode c = SIMPLE_SELECT
      then (if stringSetsAreEqual
                 (case opt_featureIds modeOptions of None \<Rightarrow> [] | Some xs \<Rightarrow> xs)
                 (store_getSelectedIds (store c))
            then c
            else c\<lparr>store := store_render (store_setSelected (opt_featureIds modeOptions) (store c))\<rparr>)
      else if m = DIRECT_SELECT \<and> api_getMode c = DIRECT_SELECT
              \<and> opt_featureId modeOptions =
                  (case store_getSelectedIds (store c) of [] \<Rightarrow> None | x # _ \<Rightarrow> Some x)
      then c
      else events_changeMode m (Some modeOptions) c)"

section \<open>api.mergeSelectedFeatures\<close>

text \<open>
  The second \<^verbatim>\<open>forEach\<close> of the merge (lines 181 to 187): \<^verbatim>\<open>feature.type\<close> on an
  \<^verbatim>\<open>undefined\<close> entry raises; a feature of another type is skipped; the others push
  their coordinates and their id.
\<close>

fun merge_collect ::
  "string \<Rightarrow> feature option list \<Rightarrow> coord list \<times> string list \<Rightarrow> error + (coord list \<times> string list)" where
  "merge_collect t [] acc = Inr acc"
| "merge_collect t (None # fs) acc = Inl TypeError"
| "merge_collect t (Some f # fs) (cs, is) =
     (if ftype f \<noteq> t then merge_collect t fs (cs, is)
      else merge_collect t fs (cs @ [getCoordinates f], is @ [fid f]))"

text \<open>
  \<^verbatim>\<open>api.mergeSelectedFeatures\<close> (lines 167 to 206). The first \<^verbatim>\<open>forEach\<close> pushes the
  result of \<^verbatim>\<open>ctx.store.get\<close> for every id, \<^verbatim>\<open>undefined\<close> included. The local
  \<^verbatim>\<open>properties\<close> is never read.
\<close>

definition api_mergeSelectedFeatures ::
  "deps \<Rightarrow> ctx \<Rightarrow> string list option \<Rightarrow> ctx \<times> (error + retval)" where
  "api_mergeSelectedFeatures d c featureIds0 =
     (case featureIds0 of
        None \<Rightarrow> (c, Inr Undefined)
      | Some ids \<Rightarrow>
          if length ids < 2 then (c, Inr Undefined)
          else
            (let fs = map (store_get (store c)) ids
             in if length fs < 2 then (c, Inr Undefined)
                else
                  (case fs of
                     [] \<Rightarrow> (c, Inl TypeError)
                   | None # _ \<Rightarrow> (c, Inl TypeError)
                   | Some f0 # _ \<Rightarrow>
                       (let featureType = ftype f0
                        in case merge_collect featureType fs ([], []) of
                             Inl e \<Rightarrow> (c, Inl e)
                           | Inr (coords, featuresSplit) \<Rightarrow>
                               (case new_feature d c MultiFeature None []
                                       \<lparr>gtype = ''Multi'' @ featureType,
                                        gcoordinates = Arr coords\<rparr> of
                                  Inl e \<Rightarrow> (c, Inl e)
                                | Inr (c1, multiFeature) \<Rightarrow>
                                    (let c2 = c1\<lparr>store := store_add multiFeature (store c1)\<rparr>;
                                         c3 = c2\<lparr>store := store_delete ids False (store c2)\<rparr>;
                                         c4 = c3\<lparr>map_fired := map_fired c3
                                                   @ [(CREATE, [toGeoJSON multiFeature])]\<rparr>
                                     in (c4, Inr Api)))))))"

section \<open>api.splitSelectedFeatures\<close>

text \<open>
  Modelled from the spec: \<^verbatim>\<open>feature_types/multi_feature\<close> is not among the sources. A
  composite decomposes into one feature per constituent part, of the base type of its
  \<open>Multi\<close> type, with a generated id and empty properties. The composites a constructor
  builds have the base types Point, LineString and Polygon; the last case of
  \<open>part_model\<close> is for a stored tag that no constructor builds.
\<close>

definition base_type :: "string \<Rightarrow> string" where
  "base_type t = (if take 5 t = ''Multi'' then drop 5 t else t)"

definition part_model :: "string \<Rightarrow> model" where
  "part_model t = (case own_model t of Some m \<Rightarrow> m | None \<Rightarrow> MultiFeature)"

fun new_parts :: "deps \<Rightarrow> ctx \<Rightarrow> string \<Rightarrow> coord list \<Rightarrow> ctx \<times> feature list" where
  "new_parts d c t [] = (c, [])"
| "new_parts d c t (p # ps) =
     (let (c1, i) = hat_next d c;
          f = \<lparr>fid = i, ftype = t, fmodel = part_model t, properties = [], coordinates = p\<rparr>;
          (c2, fs) = new_parts d c1 t ps
      in (c2, f # fs))"

definition getFeatures :: "deps \<Rightarrow> ctx \<Rightarrow> feature \<Rightarrow> ctx \<times> feature list" where
  "getFeatures d c f =
     new_parts d c (base_type (ftype f)) (case coordinates f of Arr ps \<Rightarrow> ps | Num _ \<Rightarrow> [])"

text \<open>
  The second \<^verbatim>\<open>forEach\<close> of the split (lines 219 to 228). \<^verbatim>\<open>undefined instanceof
  MultiFeature\<close> is false, as it is for a feature built by another constructor.
\<close>

fun split_loop ::
  "deps \<Rightarrow> ctx \<Rightarrow> feature option list \<Rightarrow> gj_feature list \<Rightarrow> ctx \<times> gj_feature list" where
  "split_loop d c [] createdFeatures = (c, createdFeatures)"
| "split_loop d c (None # fs) createdFeatures = split_loop d c fs createdFeatures"
| "split_loop d c (Some f # fs) createdFeatures =
     (if fmodel f = MultiFeature
      then (let (c1, subs) = getFeatures d c f;
                c2 = c1\<lparr>store := foldl (\<lambda>s subFeature. store_add subFeature s) (store c1) subs\<rparr>;
                c3 = c2\<lparr>store := store_delete [fid f] False (store c2)\<rparr>
            in split_loop d c3 fs (createdFeatures @ map toGeoJSON subs))
      else split_loop d c fs createdFeatures)"

text \<open>
  \<^verbatim>\<open>api.splitSelectedFeatures\<close> (lines 208 to 234). An array is never falsy, so the
  second guard (line 215) never returns.
\<close>

definition api_splitSelectedFeatures ::
  "deps \<Rightarrow> ctx \<Rightarrow> string list option \<Rightarrow> ctx \<times> (error + retval)" where
  "api_splitSelectedFeatures d c featureIds0 =
     (case featureIds0 of
        None \<Rightarrow> (c, Inr Undefined)
      | Some ids \<Rightarrow>
          (let selectedFeatures = map (store_get (store c)) ids;
               (c1, createdFeatures) = split_loop d c selectedFeatures []
           in (c1\<lparr>map_fired := map_fired c1 @ [(CREATE, createdFeatures)]\<rparr>, Inr Api)))"

section \<open>Example inputs\<close>

text \<open>
  A validator that reports one error for a value that is no GeoJSON object, one error
  for coordinates that are no array, and nothing otherwise; and an id generator whose ids
  are pairwise distinct.
\<close>

definition bad_coordinates :: "gj_feature \<Rightarrow> bool" where
  "bad_coordinates f =
     (case ggeometry f of
        None \<Rightarrow> False
      | Some g \<Rightarrow> (case gcoordinates g of Num _ \<Rightarrow> True | Arr _ \<Rightarrow> False))"

definition example_hint :: "geojson \<Rightarrow> hint_issue list" where
  "example_hint gj =
     (case normalize gj of
        None \<Rightarrow> [\<lparr>level = ''error'',
                  message = ''The type property is required and was not found''\<rparr>]
      | Some fs \<Rightarrow>
          if list_ex bad_coordinates fs
          then [\<lparr>level = ''error'', message = ''position must be an array''\<rparr>]
          else [])"

definition example_deps :: deps where
  "example_deps = \<lparr>hint = example_hint, hat = (\<lambda>n. replicate (Suc n) CHR ''h'')\<rparr>"

definition empty_store :: store where
  "empty_store =
     \<lparr>features = (\<lambda>_. None), featureIds = [], selectedIds = [], renders = 0,
      batch_open = False\<rparr>"

definition empty_ctx :: ctx where
  "empty_ctx =
     \<lparr>store = empty_store, events_mode = SIMPLE_SELECT, events_transitions = [],
      map_fired = [], hat_calls = 0\<rparr>"

definition point_feature :: "string \<Rightarrow> int \<Rightarrow> int \<Rightarrow> feature" where
  "point_feature i x y =
     \<lparr>fid = i, ftype = ''Point'', fmodel = Point, properties = [],
      coordinates = Arr [Num x, Num y]\<rparr>"

definition line_feature :: "string \<Rightarrow> int \<Rightarrow> int \<Rightarrow> feature" where
  "line_feature i x y =
     \<lparr>fid = i, ftype = ''LineString'', fmodel = LineString, properties = [(''name'', i)],
      coordinates = Arr [Arr [Num x, Num x], Arr [Num y, Num y]]\<rparr>"

text \<open>The two LineStrings of the merge scenario of the specification (section 8).\<close>

definition two_lines_ctx :: ctx where
  "two_lines_ctx =
     empty_ctx\<lparr>store := store_add (line_feature ''idB'' 2 3)
                           (store_add (line_feature ''idA'' 0 1) empty_store)\<rparr>"

definition two_points_ctx :: ctx where
  "two_points_ctx =
     empty_ctx\<lparr>store := store_add (point_feature ''b'' 1 1)
                           (store_add (point_feature ''a'' 0 0) empty_store)\<rparr>"

text \<open>Two composites of one point each.\<close>

definition multipoint_feature :: "string \<Rightarrow> int \<Rightarrow> feature" where
  "multipoint_feature i x =
     \<lparr>fid = i, ftype = ''MultiPoint'', fmodel = MultiFeature, properties = [],
      coordinates = Arr [Arr [Num x, Num x]]\<rparr>"

definition two_multipoints_ctx :: ctx where
  "two_multipoints_ctx =
     empty_ctx\<lparr>store := store_add (multipoint_feature ''m2'' 2)
                           (store_add (multipoint_feature ''m1'' 1) empty_store)\<rparr>"

text \<open>The two points with \<open>a\<close> selected, in simple-select and in direct-select mode.\<close>

definition direct_ctx :: ctx where
  "direct_ctx =
     two_points_ctx\<lparr>store := (store two_points_ctx)\<lparr>selectedIds := [''a'']\<rparr>,
                     events_mode := DIRECT_SELECT\<rparr>"

definition selected_ctx :: ctx where
  "selected_ctx = two_points_ctx\<lparr>store := (store two_points_ctx)\<lparr>selectedIds := [''a'']\<rparr>\<rparr>"

text \<open>
  GeoJSON features: a Point, a Point whose coordinates are a number, a Feature whose
  geometry is \<^verbatim>\<open>null\<close>, and a Feature whose geometry is a GeometryCollection (valid
  GeoJSON, and no key of \<^verbatim>\<open>featureTypes\<close>).
\<close>

definition gj_point :: "string option \<Rightarrow> int \<Rightarrow> int \<Rightarrow> gj_feature" where
  "gj_point i x y =
     \<lparr>gid = i, gproperties = [],
      ggeometry = Some \<lparr>gtype = ''Point'', gcoordinates = Arr [Num x, Num y]\<rparr>\<rparr>"

definition gj_bad_point :: "string option \<Rightarrow> gj_feature" where
  "gj_bad_point i =
     \<lparr>gid = i, gproperties = [],
      ggeometry = Some \<lparr>gtype = ''Point'', gcoordinates = Num 7\<rparr>\<rparr>"

definition gj_null :: "string option \<Rightarrow> gj_feature" where
  "gj_null i = \<lparr>gid = i, gproperties = [], ggeometry = None\<rparr>"

definition gj_collection :: "string option \<Rightarrow> gj_feature" where
  "gj_collection i =
     \<lparr>gid = i, gproperties = [],
      ggeometry = Some \<lparr>gtype = ''GeometryCollection'', gcoordinates = Arr []\<rparr>\<rparr>"

text \<open>The part of a composite that gets the \<open>k\<close>-th generated id.\<close>

definition part_feature :: "deps \<Rightarrow> string \<Rightarrow> nat \<times> coord \<Rightarrow> feature" where
  "part_feature d t kp =
     \<lparr>fid = hat d (fst kp), ftype = t, fmodel = part_model t, properties = [],
      coordinates = snd kp\<rparr>"

section \<open>The ingestion loop, id by id\<close>

text \<open>The id a feature of the input is ingested under, when it carries one.\<close>

definition feature_id :: "gj_feature \<Rightarrow> string" where
  "feature_id f = (case gid f of None \<Rightarrow> [] | Some i \<Rightarrow> i)"

text \<open>
  What the loop of \<^verbatim>\<open>api.add\<close> sees of the store at one id: the feature stored under it,
  and whether the id is in the id list. \<open>entry_step\<close> is the callback on that entry
  alone (\<open>None\<close> when it raises), \<open>entry_run\<close> the callbacks of a list of features.
\<close>

type_synonym entry = "feature option \<times> bool"

definition entry_new :: "gj_feature \<Rightarrow> geometry \<Rightarrow> entry option" where
  "entry_new f g =
     (case own_model (gtype g) of
        None \<Rightarrow> None
      | Some m \<Rightarrow> Some (Some \<lparr>fid = feature_id f, ftype = gtype g, fmodel = m,
                              properties = gproperties f, coordinates = gcoordinates g\<rparr>, True))"

definition entry_step :: "gj_feature \<Rightarrow> entry \<Rightarrow> entry option" where
  "entry_step f x =
     (case ggeometry f of
        None \<Rightarrow> None
      | Some g \<Rightarrow>
          (case fst x of
             None \<Rightarrow> entry_new f g
           | Some e \<Rightarrow>
               if ftype e = gtype g
               then Some (Some (e\<lparr>properties := gproperties f, coordinates := gcoordinates g\<rparr>),
                          snd x)
               else entry_new f g))"

fun entry_run :: "gj_feature list \<Rightarrow> entry \<Rightarrow> entry option" where
  "entry_run [] x = Some x"
| "entry_run (f # fs) x = (case entry_step f x of None \<Rightarrow> None | Some y \<Rightarrow> entry_run fs y)"

text \<open>
  An entry of a supported geometry type; two entries that differ at most in properties
  and coordinates.
\<close>

definition entry_ok :: "entry \<Rightarrow> bool" where
  "entry_ok x = (case fst x of None \<Rightarrow> True | Some e \<Rightarrow> own_model (ftype e) \<noteq> None)"

definition entry_sim :: "entry \<Rightarrow> entry \<Rightarrow> bool" where
  "entry_sim z y =
     (case (fst z, fst y) of
        (Some ez, Some ey) \<Rightarrow>
          fid ez = fid ey \<and> ftype ez = ftype ey \<and> fmodel ez = fmodel ey \<and> snd z = snd y
      | _ \<Rightarrow> False)"

text \<open>
  The entry of a context at an id, the context with an entry written back, and two
  contexts that differ at most in the stored features and the id list.
\<close>

definition view :: "ctx \<Rightarrow> string \<Rightarrow> entry" where
  "view c i = (features (store c) i, i \<in> set (featureIds (store c)))"

definition put :: "string \<Rightarrow> entry \<Rightarrow> ctx \<Rightarrow> ctx" where
  "put i y c =
     c\<lparr>store := (store c)
          \<lparr>features := (features (store c))(i := fst y),
           featureIds := (if snd y \<and> i \<notin> set (featureIds (store c))
                          then featureIds (store c) @ [i] else featureIds (store c))\<rparr>\<rparr>"

definition same_frame :: "ctx \<Rightarrow> ctx \<Rightarrow> bool" where
  "same_frame c c' =
     (events_mode c' = events_mode c \<and> events_transitions c' = events_transitions c
      \<and> map_fired c' = map_fired c \<and> hat_calls c' = hat_calls c
      \<and> selectedIds (store c') = selectedIds (store c)
      \<and> renders (store c') = renders (store c)
      \<and> batch_open (store c') = batch_open (store c))"

section \<open>Facts about the loops\<close>

lemmas store_defs = store_get_def store_add_def store_getAllIds_def store_getAll_def
  store_getSelectedIds_def store_render_def store_createRenderBatch_def
  store_closeRenderBatch_def store_delete_def store_setSelected_def

lemmas example_defs = example_hint_def bad_coordinates_def normalize_def example_deps_def
  empty_store_def empty_ctx_def
  point_feature_def two_points_ctx_def line_feature_def two_lines_ctx_def
  multipoint_feature_def two_multipoints_ctx_def

lemmas feature_defs = new_feature_def hat_next_def getCoordinates_def incomingCoords_def
  toGeoJSON_def featureTypes_def own_model_def object_members_def multi_types_def

lemmas gj_defs = gj_point_def gj_bad_point_def gj_null_def gj_collection_def

lemma add_features_append:
  "add_features d c (fs @ gs) =
     (case add_features d c fs of
        (c1, Inl e) \<Rightarrow> (c1, Inl e)
      | (c1, Inr ids) \<Rightarrow>
          (case add_features d c1 gs of
             (c2, Inl e) \<Rightarrow> (c2, Inl e)
           | (c2, Inr ids2) \<Rightarrow> (c2, Inr (ids @ ids2))))"
  by (induction fs arbitrary: c) (auto split: prod.splits sum.splits)

lemma featureTypes_Model:
  "featureTypes t = Some (Model m) \<longleftrightarrow> own_model t = Some m"
  by (simp add: featureTypes_def split: option.splits)

lemma featureTypes_Inherited:
  "featureTypes t = Some (Inherited k) \<longleftrightarrow>
     own_model t = None \<and> t \<in> set object_members \<and> k = t"
  by (auto simp: featureTypes_def split: option.splits)

lemma featureTypes_own:
  "own_model t = Some m \<Longrightarrow> featureTypes t = Some (Model m)"
  by (simp add: featureTypes_def)

lemma featureTypes_not_own:
  "own_model t = None \<Longrightarrow>
     featureTypes t = (if t \<in> set object_members then Some (Inherited t) else None)"
  by (simp add: featureTypes_def)

lemma multi_of_single:
  "''Multi'' @ t \<in> set multi_types \<longleftrightarrow> t \<in> {''Point'', ''LineString'', ''Polygon''}"
  by (auto simp: multi_types_def)

lemma own_model_multi:
  "own_model t = Some MultiFeature \<Longrightarrow> t \<in> set multi_types"
  by (simp add: own_model_def multi_types_def split: if_splits)

lemma new_feature_own:
  assumes "own_model (gtype g) = Some m"
  shows "new_feature d c m (Some i) p g
     = Inr (c, \<lparr>fid = i, ftype = gtype g, fmodel = m, properties = p,
                 coordinates = gcoordinates g\<rparr>)"
  using own_model_multi [of "gtype g"] assms by (auto simp: new_feature_def)

lemma add_feature_error_store:
  assumes "add_feature d c f = (c1, Inl e)"
  shows "store c1 = store c
     \<and> ((ggeometry f = None \<and> e = Error ''Invalid geometry: null'')
        \<or> (\<exists>g. ggeometry f = Some g \<and> featureTypes (gtype g) = None
              \<and> e = Error (''Invalid geometry type: '' @ gtype g @ ''.''))
        \<or> (\<exists>g. ggeometry f = Some g \<and> gtype g \<in> set object_members
              \<and> gtype g \<noteq> ''constructor'' \<and> e = TypeError)
        \<or> (\<exists>g. ggeometry f = Some g \<and> gtype g = ''constructor'' \<and> e = NotAFeature))"
proof -
  obtain c0 i where id: "(case gid f of None \<Rightarrow> hat_next d c
                          | Some x \<Rightarrow> if x = [] then hat_next d c else (c, x)) = (c0, i)"
    by (cases "case gid f of None \<Rightarrow> hat_next d c
                          | Some x \<Rightarrow> if x = [] then hat_next d c else (c, x)")
  then have c0: "store c0 = store c"
    by (auto simp: hat_next_def split: option.splits if_splits)
  show ?thesis
  proof (cases "ggeometry f")
    case None
    with assms id c0 show ?thesis
      by (simp add: add_feature_def)
  next
    case (Some g)
    show ?thesis
    proof (cases "featureTypes (gtype g)")
      case None
      with assms id c0 Some show ?thesis
        by (auto simp: add_feature_def Let_def split: option.splits if_splits)
    next
      case look: (Some l)
      show ?thesis
      proof (cases l)
        case (Model m)
        with look have "own_model (gtype g) = Some m"
          by (simp add: featureTypes_Model)
        from new_feature_own [OF this] assms id Some look Model show ?thesis
          by (auto simp: add_feature_def Let_def split: option.splits if_splits)
      next
        case (Inherited k)
        with look have "gtype g \<in> set object_members" "k = gtype g"
          by (simp_all add: featureTypes_Inherited)
        with assms id c0 Some look Inherited show ?thesis
          by (auto simp: add_feature_def Let_def split: option.splits if_splits)
      qed
    qed
  qed
qed

lemma merge_collect_live:
  "merge_collect t (map Some fs) (cs, is) =
     Inr (cs @ map getCoordinates (filter (\<lambda>f. ftype f = t) fs),
          is @ map fid (filter (\<lambda>f. ftype f = t) fs))"
  by (induction fs arbitrary: cs "is") auto

lemma merge_collect_dead:
  "None \<in> set fs \<Longrightarrow> merge_collect t fs acc = Inl TypeError"
  by (induction t fs acc rule: merge_collect.induct) auto

lemma all_live_map_Some:
  assumes "\<forall>i\<in>set ids. store_get s i \<noteq> None"
  shows "map (store_get s) ids = map Some (map (\<lambda>i. the (store_get s i)) ids)"
  using assms by (induction ids) auto

lemma merge_all_live:
  assumes "map (store_get (store c)) ids = map Some (f0 # rest)" and "rest \<noteq> []"
    and "ftype f0 \<in> {''Point'', ''LineString'', ''Polygon''}"
  shows "api_mergeSelectedFeatures d c (Some ids) =
     (let multiFeature =
            \<lparr>fid = hat d (hat_calls c), ftype = ''Multi'' @ ftype f0, fmodel = MultiFeature,
             properties = [],
             coordinates = Arr (map coordinates (filter (\<lambda>f. ftype f = ftype f0) (f0 # rest)))\<rparr>
      in (c\<lparr>hat_calls := Suc (hat_calls c),
            store := store_delete ids False (store_add multiFeature (store c)),
            map_fired := map_fired c @ [(CREATE, [toGeoJSON multiFeature])]\<rparr>, Inr Api))"
proof -
  have "length ids = length (map Some (f0 # rest))"
    using assms(1) by (metis length_map)
  with assms(2) have len: "\<not> length ids < 2"
    by (cases rest) simp_all
  have coll: "merge_collect (ftype f0) (map Some (f0 # rest)) ([], [])
      = Inr (map getCoordinates (filter (\<lambda>f. ftype f = ftype f0) (f0 # rest)),
             map fid (filter (\<lambda>f. ftype f = ftype f0) (f0 # rest)))"
    using merge_collect_live [of "ftype f0" "f0 # rest" "[]" "[]"] by simp
  have gc: "getCoordinates = coordinates"
    by (rule ext) (simp add: getCoordinates_def)
  have mt: "''Multi'' @ ftype f0 \<in> set multi_types"
    using assms(3) by (simp only: multi_of_single)
  show ?thesis
    unfolding api_mergeSelectedFeatures_def
    using len coll assms(1,2) mt
    by (simp add: Let_def new_feature_def hat_next_def gc del: merge_collect.simps)
qed

lemma merge_raises_on_dead_id:
  assumes "2 \<le> length ids" and "\<exists>i\<in>set ids. store_get (store c) i = None"
  shows "api_mergeSelectedFeatures d c (Some ids) = (c, Inl TypeError)"
proof -
  let ?fs = "map (store_get (store c)) ids"
  have dead: "None \<in> set ?fs"
    using assms(2) by (auto simp: image_iff) (metis)
  have len: "\<not> length ids < 2" "\<not> length ?fs < 2"
    using assms(1) by simp_all
  show ?thesis
  proof (cases ?fs)
    case Nil
    with dead show ?thesis by simp
  next
    case (Cons x xs)
    show ?thesis
    proof (cases x)
      case None
      with Cons len show ?thesis
        by (simp add: api_mergeSelectedFeatures_def Let_def)
    next
      case (Some f0)
      have "merge_collect (ftype f0) ?fs ([], []) = Inl TypeError"
        using dead by (rule merge_collect_dead)
      with Cons Some len show ?thesis
        by (simp add: api_mergeSelectedFeatures_def Let_def del: merge_collect.simps)
    qed
  qed
qed

lemma new_parts_eq:
  "new_parts d c t ps =
     (c\<lparr>hat_calls := hat_calls c + length ps\<rparr>,
      map (part_feature d t) (enumerate (hat_calls c) ps))"
proof (induction ps arbitrary: c)
  case Nil
  show ?case by simp
next
  case (Cons p ps)
  show ?case
    by (simp add: Cons.IH new_feature_def hat_next_def part_feature_def)
qed

lemma split_loop_map_fired:
  "map_fired (fst (split_loop d c fs acc)) = map_fired c"
  by (induction d c fs acc rule: split_loop.induct)
     (auto simp: Let_def getFeatures_def new_parts_eq split: prod.splits)

lemma split_returns_api:
  "snd (api_splitSelectedFeatures d c (Some ids)) = Inr Api"
  by (simp add: api_splitSelectedFeatures_def Let_def split: prod.splits)

lemma split_loop_skip_dead:
  "split_loop d c (map (store_get s) (filter (\<lambda>i. store_get s i \<noteq> None) ids)) acc
     = split_loop d c (map (store_get s) ids) acc"
  by (induction ids arbitrary: c acc) (auto split: option.splits)

lemma split_loop_skip_single:
  "split_loop d c (map (store_get s)
       (filter (\<lambda>i. case store_get s i of None \<Rightarrow> False
                     | Some f \<Rightarrow> fmodel f = MultiFeature) ids)) acc
     = split_loop d c (map (store_get s) ids) acc"
  by (induction ids arbitrary: c acc) (auto split: option.splits)

lemma split_loop_no_composite:
  "\<forall>x\<in>set fs. case x of None \<Rightarrow> True | Some f \<Rightarrow> fmodel f \<noteq> MultiFeature
   \<Longrightarrow> split_loop d c fs acc = (c, acc)"
  by (induction d c fs acc rule: split_loop.induct) auto

lemma foldl_store_add_frame:
  "selectedIds (foldl (\<lambda>s p. store_add p s) s ps) = selectedIds s
   \<and> renders (foldl (\<lambda>s p. store_add p s) s ps) = renders s
   \<and> batch_open (foldl (\<lambda>s p. store_add p s) s ps) = batch_open s"
  by (induction ps arbitrary: s) (simp_all add: store_add_def)

lemma foldl_store_add_out:
  "i \<notin> fid ` set ps \<Longrightarrow> features (foldl (\<lambda>s p. store_add p s) s ps) i = features s i"
  by (induction ps arbitrary: s) (simp_all add: store_add_def)

lemma foldl_store_add_in:
  "distinct (map fid ps) \<Longrightarrow> p \<in> set ps
   \<Longrightarrow> features (foldl (\<lambda>s p. store_add p s) s ps) (fid p) = Some p"
proof (induction ps arbitrary: s)
  case Nil
  then show ?case by simp
next
  case (Cons q ps)
  show ?case
  proof (cases "p = q")
    case True
    with Cons.prems have "fid p \<notin> fid ` set ps" by auto
    then have "features (foldl (\<lambda>s p. store_add p s) (store_add q s) ps) (fid p)
        = features (store_add q s) (fid p)"
      by (rule foldl_store_add_out)
    then show ?thesis
      using True by (simp add: store_add_def)
  next
    case False
    with Cons show ?thesis by simp
  qed
qed

lemma foldl_store_add_ids:
  "distinct (map fid ps) \<Longrightarrow> fid ` set ps \<inter> set (featureIds s) = {}
   \<Longrightarrow> featureIds (foldl (\<lambda>s p. store_add p s) s ps) = featureIds s @ map fid ps"
proof (induction ps arbitrary: s)
  case Nil
  then show ?case by simp
next
  case (Cons q ps)
  from Cons.prems have q: "fid q \<notin> set (featureIds s)" by auto
  then have ids: "featureIds (store_add q s) = featureIds s @ [fid q]"
    by (simp add: store_add_def)
  have "fid ` set ps \<inter> set (featureIds (store_add q s)) = {}"
    using Cons.prems ids by auto
  with Cons.IH [of "store_add q s"] Cons.prems(1) ids show ?case by simp
qed

lemma fid_part_features:
  "map fid (map (part_feature d t) (enumerate n xs)) = map (hat d) [n ..< n + length xs]"
proof -
  have "fid \<circ> part_feature d t = hat d \<circ> fst"
    by (rule ext) (simp add: part_feature_def)
  then have "map fid (map (part_feature d t) (enumerate n xs))
      = map (hat d) (map fst (enumerate n xs))"
    by (simp only: map_map)
  then show ?thesis by simp
qed

lemma coordinates_part_features:
  "map coordinates (map (part_feature d t) (enumerate n xs)) = xs"
proof -
  have "coordinates \<circ> part_feature d t = snd"
    by (rule ext) (simp add: part_feature_def)
  then have "map coordinates (map (part_feature d t) (enumerate n xs))
      = map snd (enumerate n xs)"
    by (simp only: map_map)
  then show ?thesis by simp
qed

lemma map_filter_lookup_all:
  "\<forall>p\<in>set ps. g (f p) = Some p \<Longrightarrow> List.map_filter g (map f ps) = ps"
  by (induction ps) (simp_all add: List.map_filter_def)

lemma map_filter_agree:
  "\<forall>i\<in>set xs. g i = h i \<Longrightarrow> List.map_filter g xs = List.map_filter h xs"
  by (induction xs) (simp_all add: List.map_filter_def)

lemma map_filter_app:
  "List.map_filter g (xs @ ys) = List.map_filter g xs @ List.map_filter g ys"
  by (simp add: List.map_filter_def)

lemma split_of_merged:
  assumes live: "map (store_get (store c)) ids = map Some fs"
    and len: "2 \<le> length ids"
    and same_type: "\<forall>f\<in>set fs. ftype f = t"
    and single: "t \<in> {''Point'', ''LineString'', ''Polygon''}"
    and distinct_new: "distinct (map (hat d) [hat_calls c ..< hat_calls c + Suc (length ids)])"
    and fresh: "\<forall>k\<in>set [hat_calls c ..< hat_calls c + Suc (length ids)].
                  features (store c) (hat d k) = None \<and> hat d k \<notin> set (featureIds (store c))"
  shows "snd (api_mergeSelectedFeatures d c (Some ids)) = Inr Api
    \<and> (\<exists>mf. store_get (store (fst (api_mergeSelectedFeatures d c (Some ids)))) (hat d (hat_calls c))
              = Some mf \<and> ftype mf = ''Multi'' @ t \<and> fmodel mf = MultiFeature)
    \<and> snd (api_splitSelectedFeatures d (fst (api_mergeSelectedFeatures d c (Some ids)))
              (Some [hat d (hat_calls c)])) = Inr Api
    \<and> store_getAll (store (fst (api_splitSelectedFeatures d
              (fst (api_mergeSelectedFeatures d c (Some ids))) (Some [hat d (hat_calls c)]))))
        = store_getAll (store_delete ids True (store c))
          @ map (part_feature d t) (enumerate (Suc (hat_calls c)) (map coordinates fs))"
proof -
  define k where "k = hat_calls c"
  define m where "m = hat d k"
  define s0 where "s0 = store c"
  define mf where "mf = \<lparr>fid = m, ftype = ''Multi'' @ t, fmodel = MultiFeature, properties = [],
              coordinates = Arr (map coordinates fs)\<rparr>"
  define parts where "parts = map (part_feature d t) (enumerate (Suc k) (map coordinates fs))"
  define pids where "pids = map (hat d) [Suc k ..< Suc k + length ids]"
  define S1 where "S1 = store_delete ids False (store_add mf s0)"
  define S2 where "S2 = foldl (\<lambda>s p. store_add p s) S1 parts"
  define S3 where "S3 = store_delete [m] False S2"
  define c1 where "c1 = c\<lparr>hat_calls := Suc k, store := S1,
               map_fired := map_fired c @ [(CREATE, [toGeoJSON mf])]\<rparr>"
  define c3 where "c3 = c1\<lparr>hat_calls := Suc k + length ids, store := S3\<rparr>"
  have mf_sel: "fid mf = m" "ftype mf = ''Multi'' @ t" "fmodel mf = MultiFeature"
      "coordinates mf = Arr (map coordinates fs)"
    by (simp_all add: mf_def)
  have n: "length fs = length ids"
    using live by (metis length_map)
  from len n obtain f0 rest where fs: "fs = f0 # rest" and rest: "rest \<noteq> []"
    by (cases fs; cases "tl fs") auto
  have same: "filter (\<lambda>f. ftype f = ftype f0) (f0 # rest) = fs"
    using same_type fs by (auto simp: filter_id_conv)
  have t0: "ftype f0 = t"
    using same_type fs by simp
  have merge: "api_mergeSelectedFeatures d c (Some ids) = (c1, Inr Api)"
    using merge_all_live [of c ids f0 rest d] live rest same t0 single
    by (simp add: fs Let_def c1_def S1_def mf_def m_def k_def s0_def)
  have ids_live: "\<forall>i\<in>set ids. features s0 i \<noteq> None"
  proof
    fix i assume "i \<in> set ids"
    then have "store_get s0 i \<in> set (map (store_get s0) ids)" by simp
    then show "features s0 i \<noteq> None"
      using live by (auto simp: store_get_def s0_def)
  qed
  have range: "[hat_calls c ..< hat_calls c + Suc (length ids)] = k # [Suc k ..< Suc k + length ids]"
    by (simp add: upt_rec k_def)
  have m_fresh: "features s0 m = None" "m \<notin> set (featureIds s0)"
    using fresh unfolding range by (simp_all add: m_def s0_def)
  have m_ids: "m \<notin> set ids"
    using ids_live m_fresh(1) by blast
  have pids_distinct: "distinct pids" and m_pids: "m \<notin> set pids"
    using distinct_new unfolding range by (simp_all add: pids_def m_def)
  have pids_fresh: "\<forall>i\<in>set pids. features s0 i = None \<and> i \<notin> set (featureIds s0)"
    using fresh unfolding range by (auto simp: pids_def s0_def)
  have fid_parts: "map fid parts = pids"
    using fid_part_features [of d t "Suc k" "map coordinates fs"] n
    by (simp add: parts_def pids_def)
  have set_parts: "fid ` set parts = set pids"
    using fid_parts by (metis set_map)
  have S1_ids: "featureIds S1 = filter (\<lambda>i. i \<notin> set ids) (featureIds s0) @ [m]"
    using m_fresh(2) m_ids
    by (simp add: S1_def store_delete_def store_add_def store_render_def Let_def mf_sel)
  have S1_feat: "features S1 i = (if i \<in> set ids then None else ((features s0)(m := Some mf)) i)" for i
    by (simp add: S1_def store_delete_def store_add_def store_render_def Let_def mf_sel)
  have get_m: "store_get S1 m = Some mf"
    using m_ids by (simp add: store_get_def S1_feat)
  have bt: "base_type (ftype mf) = t"
    by (simp add: base_type_def mf_def)
  have c1_sel: "store c1 = S1" "hat_calls c1 = Suc k"
    by (simp_all add: c1_def)
  have parts: "getFeatures d c1 mf = (c1\<lparr>hat_calls := Suc k + length ids\<rparr>, parts)"
    using n by (simp add: getFeatures_def new_parts_eq mf_sel(4) bt c1_sel parts_def)
  have loop: "split_loop d c1 [Some mf] [] = (c3, map toGeoJSON parts)"
    by (simp add: parts mf_sel c1_sel c3_def S3_def S2_def Let_def)
  have split: "api_splitSelectedFeatures d c1 (Some [m])
      = (c3\<lparr>map_fired := map_fired c3 @ [(CREATE, map toGeoJSON parts)]\<rparr>, Inr Api)"
    using loop get_m by (simp add: api_splitSelectedFeatures_def c1_sel del: split_loop.simps)
  have disj: "fid ` set parts \<inter> set (featureIds S1) = {}"
    using pids_fresh m_pids unfolding S1_ids set_parts by auto
  have dist: "distinct (map fid parts)"
    using pids_distinct fid_parts by simp
  have S2_ids: "featureIds S2 = filter (\<lambda>i. i \<notin> set ids) (featureIds s0) @ [m] @ pids"
    using foldl_store_add_ids [OF dist disj] fid_parts S1_ids by (simp add: S2_def)
  have S3_ids: "featureIds S3 = filter (\<lambda>i. i \<notin> set ids) (featureIds s0) @ pids"
  proof -
    have "filter (\<lambda>i. i \<noteq> m) (filter (\<lambda>i. i \<notin> set ids) (featureIds s0))
        = filter (\<lambda>i. i \<notin> set ids) (featureIds s0)"
      using m_fresh(2) by (auto intro: filter_cong)
    moreover have "filter (\<lambda>i. i \<noteq> m) pids = pids"
      using m_pids by (auto simp: filter_id_conv)
    ultimately show ?thesis
      by (simp add: S3_def store_delete_def store_render_def Let_def S2_ids)
  qed
  have S3_feat: "features S3 i = (if i = m then None else features S2 i)" for i
    by (simp add: S3_def store_delete_def store_render_def Let_def)
  have old: "\<forall>i\<in>set (filter (\<lambda>i. i \<notin> set ids) (featureIds s0)).
      features S3 i = features (store_delete ids True s0) i"
  proof
    fix i assume i: "i \<in> set (filter (\<lambda>i. i \<notin> set ids) (featureIds s0))"
    then have i_m: "i \<noteq> m" and i_ids: "i \<notin> set ids"
      using m_fresh(2) by auto
    have "i \<notin> set pids"
      using i pids_fresh by auto
    then have "i \<notin> fid ` set parts"
      using set_parts by simp
    then have "features S2 i = features S1 i"
      unfolding S2_def by (rule foldl_store_add_out)
    then show "features S3 i = features (store_delete ids True s0) i"
      using i_m i_ids by (simp add: S3_feat S1_feat store_delete_def)
  qed
  have new: "\<forall>p\<in>set parts. features S3 (fid p) = Some p"
  proof
    fix p assume p: "p \<in> set parts"
    then have "fid p \<in> set pids"
      using set_parts by blast
    then have "fid p \<noteq> m"
      using m_pids by auto
    then show "features S3 (fid p) = Some p"
      using foldl_store_add_in [OF dist p, of S1] by (simp add: S3_feat S2_def)
  qed
  have "store_getAll S3
      = List.map_filter (features S3) (filter (\<lambda>i. i \<notin> set ids) (featureIds s0))
        @ List.map_filter (features S3) (map fid parts)"
    by (simp only: store_getAll_def S3_ids map_filter_app fid_parts)
  also have "List.map_filter (features S3) (filter (\<lambda>i. i \<notin> set ids) (featureIds s0))
      = store_getAll (store_delete ids True s0)"
    using map_filter_agree [OF old] by (simp add: store_getAll_def store_delete_def)
  also have "List.map_filter (features S3) (map fid parts) = parts"
    using new by (rule map_filter_lookup_all)
  finally have all: "store_getAll S3 = store_getAll (store_delete ids True s0) @ parts" .
  have r1: "snd (api_mergeSelectedFeatures d c (Some ids)) = Inr Api"
    by (simp add: merge)
  have r2: "\<exists>mf. store_get (store (fst (api_mergeSelectedFeatures d c (Some ids)))) (hat d (hat_calls c))
              = Some mf \<and> ftype mf = ''Multi'' @ t \<and> fmodel mf = MultiFeature"
    using get_m mf_sel by (simp add: merge c1_sel m_def k_def)
  have r3: "snd (api_splitSelectedFeatures d (fst (api_mergeSelectedFeatures d c (Some ids)))
              (Some [hat d (hat_calls c)])) = Inr Api"
    by (simp add: split_returns_api)
  have r4: "store_getAll (store (fst (api_splitSelectedFeatures d
              (fst (api_mergeSelectedFeatures d c (Some ids))) (Some [hat d (hat_calls c)]))))
        = store_getAll (store_delete ids True (store c))
          @ map (part_feature d t) (enumerate (Suc (hat_calls c)) (map coordinates fs))"
    using all split
    by (simp add: merge m_def [symmetric] k_def [symmetric] c3_def parts_def s0_def)
  from r1 r2 r3 r4 show ?thesis by blast
qed

lemma entry_run_snoc:
  "entry_run (fs @ [f]) x = (case entry_run fs x of None \<Rightarrow> None | Some p \<Rightarrow> entry_step f p)"
  by (induction fs arbitrary: x) (auto split: option.splits)

lemma entry_step_result:
  assumes "entry_step f x = Some y"
  shows "\<exists>g e. ggeometry f = Some g \<and> fst y = Some e \<and> ftype e = gtype g
           \<and> properties e = gproperties f \<and> coordinates e = gcoordinates g"
  using assms
  by (auto simp: entry_step_def entry_new_def split: option.splits if_splits)

lemma entry_step_ok:
  assumes "entry_step f x = Some y" and "entry_ok x"
  shows "entry_ok y"
  using assms
  by (auto simp: entry_step_def entry_new_def entry_ok_def split: option.splits if_splits)

lemma entry_run_ok:
  "entry_run fs x = Some y \<Longrightarrow> entry_ok x \<Longrightarrow> entry_ok y"
  by (induction fs arbitrary: x) (auto split: option.splits dest: entry_step_ok)

lemma entry_step_succeeds:
  assumes "entry_step f x = Some x'" and "entry_ok x"
  shows "\<exists>z'. entry_step f z = Some z'"
  using assms
  by (auto simp: entry_step_def entry_new_def entry_ok_def split: option.splits if_splits)

lemma entry_run_succeeds:
  "entry_run fs x = Some y \<Longrightarrow> entry_ok x \<Longrightarrow> \<exists>q. entry_run fs z = Some q"
proof (induction fs arbitrary: x z)
  case Nil
  show ?case by simp
next
  case (Cons f fs)
  from Cons.prems(1) obtain x' where x': "entry_step f x = Some x'" and run: "entry_run fs x' = Some y"
    by (auto split: option.splits)
  from entry_step_succeeds [OF x' Cons.prems(2)] obtain z' where z': "entry_step f z = Some z'"
    by blast
  from Cons.IH [OF run entry_step_ok [OF x' Cons.prems(2)], of z'] z'
  show ?case by simp
qed

lemma entry_run_last:
  assumes "entry_run fs x = Some p" and "fs \<noteq> []"
  shows "\<exists>g e. ggeometry (last fs) = Some g \<and> fst p = Some e \<and> ftype e = gtype g"
proof -
  from assms(2) obtain gs f where fs: "fs = gs @ [f]"
    by (metis rev_exhaust)
  with assms(1) obtain q where "entry_step f q = Some p"
    by (auto simp: entry_run_snoc split: option.splits)
  from entry_step_result [OF this] show ?thesis
    by (auto simp: fs)
qed

lemma entry_step_sim:
  assumes "entry_step f p = Some y" and "entry_sim z y"
  shows "entry_step f z = Some y"
proof -
  from entry_step_result [OF assms(1)] obtain g ey where
    g: "ggeometry f = Some g" and y: "fst y = Some ey" "ftype ey = gtype g"
      "properties ey = gproperties f" "coordinates ey = gcoordinates g"
    by blast
  from assms(2) y(1) obtain ez where z: "fst z = Some ez" "fid ez = fid ey" "ftype ez = ftype ey"
      "fmodel ez = fmodel ey" "snd z = snd y"
    by (auto simp: entry_sim_def split: option.splits)
  have "ez\<lparr>properties := gproperties f, coordinates := gcoordinates g\<rparr> = ey"
    using z y by simp
  then show ?thesis
    using g z y by (simp add: entry_step_def prod_eq_iff)
qed

lemma entry_step_inplace_sim:
  assumes "entry_step f p = Some y" and "ggeometry f = Some g" and "fst p = Some e"
    and "ftype e = gtype g"
  shows "entry_sim y p"
  using assms by (auto simp: entry_step_def entry_sim_def)

lemma entry_sim_trans:
  "entry_sim z y \<Longrightarrow> entry_sim y p \<Longrightarrow> entry_sim z p"
  by (auto simp: entry_sim_def split: option.splits)

lemma entry_step_rebuild:
  assumes "ggeometry f = Some g" and "fst p = Some ep" and "fst q = Some eq"
    and "ftype ep \<noteq> gtype g" and "ftype eq \<noteq> gtype g"
  shows "entry_step f q = entry_step f p"
  using assms by (simp add: entry_step_def)

lemma entry_run_sim:
  "entry_run fs x = Some y \<Longrightarrow> fs \<noteq> [] \<Longrightarrow> entry_ok x \<Longrightarrow> entry_sim z y
   \<Longrightarrow> entry_run fs z = Some y"
proof (induction fs arbitrary: y z rule: rev_induct)
  case Nil
  then show ?case by simp
next
  case (snoc f fs)
  from snoc.prems(1) obtain p where p: "entry_run fs x = Some p" and step: "entry_step f p = Some y"
    by (auto simp: entry_run_snoc split: option.splits)
  show ?case
  proof (cases "fs = []")
    case True
    with entry_step_sim [OF step snoc.prems(4)] show ?thesis by simp
  next
    case False
    from entry_step_result [OF step] obtain g where g: "ggeometry f = Some g"
      by blast
    from entry_run_last [OF p False] obtain ep where ep: "fst p = Some ep"
      and last: "\<exists>h. ggeometry (last fs) = Some h \<and> ftype ep = gtype h"
      by blast
    show ?thesis
    proof (cases "ftype ep = gtype g")
      case True
      have "entry_sim y p"
        using step g ep True by (rule entry_step_inplace_sim)
      with snoc.prems(4) have "entry_sim z p"
        by (rule entry_sim_trans)
      with snoc.IH [OF p False snoc.prems(3)] have "entry_run fs z = Some p" .
      with step show ?thesis
        by (simp add: entry_run_snoc)
    next
      case diff: False
      from entry_run_succeeds [OF p snoc.prems(3), of z] obtain q where q: "entry_run fs z = Some q"
        by blast
      from entry_run_last [OF q False] last obtain eq where eq: "fst q = Some eq" "ftype eq = ftype ep"
        by auto
      have "entry_step f q = entry_step f p"
        using g ep eq(1) diff eq(2) by (simp add: entry_step_def)
      with q step show ?thesis
        by (simp add: entry_run_snoc)
    qed
  qed
qed

lemma entry_run_again:
  assumes "entry_run fs x = Some y" and "entry_ok x"
  shows "entry_run fs y = Some y"
proof (cases "fs = []")
  case True
  then show ?thesis by simp
next
  case False
  from entry_run_last [OF assms(1) False] have "entry_sim y y"
    by (auto simp: entry_sim_def)
  from entry_run_sim [OF assms(1) False assms(2) this] show ?thesis .
qed

lemma entry_step_listed:
  assumes "entry_step f x = Some y" and "snd x"
  shows "snd y"
  using assms
  by (auto simp: entry_step_def entry_new_def split: option.splits if_splits)

lemma add_feature_fails:
  assumes "feature_id f \<noteq> []" and "entry_step f (view c (feature_id f)) = None"
  shows "\<exists>e. add_feature d c f = (c, Inl e)"
  using assms
  by (auto simp: add_feature_def feature_id_def entry_step_def entry_new_def view_def
      store_get_def featureTypes_not_own Let_def split: option.splits if_splits)

lemma same_coordinates:
  "coordinates e = cs \<Longrightarrow> e\<lparr>properties := p, coordinates := cs\<rparr> = e\<lparr>properties := p\<rparr>"
  by (cases e) simp

lemma add_feature_puts:
  assumes "feature_id f \<noteq> []" and "entry_step f (view c (feature_id f)) = Some y"
  shows "add_feature d c f = (put (feature_id f) y c, Inr (feature_id f))"
  using assms
  by (auto simp: add_feature_def feature_id_def entry_step_def entry_new_def view_def put_def
      store_get_def store_add_def featureTypes_own new_feature_own getCoordinates_def
      incomingCoords_def Let_def same_coordinates split: option.splits if_splits)

lemma view_put_same:
  assumes "entry_step f (view c i) = Some y"
  shows "view (put i y c) i = y"
proof -
  have "i \<in> set (featureIds (store c)) \<Longrightarrow> snd y"
    using entry_step_listed [OF assms] by (simp add: view_def)
  then show ?thesis
    by (auto simp: view_def put_def prod_eq_iff)
qed

lemma view_put_other:
  "j \<noteq> i \<Longrightarrow> view (put i y c) j = view c j"
  by (simp add: view_def put_def)

lemma same_frame_put:
  "same_frame c (put i y c)"
  by (simp add: same_frame_def put_def)

lemma same_frame_trans:
  "same_frame a b \<Longrightarrow> same_frame b c \<Longrightarrow> same_frame a c"
  by (simp add: same_frame_def)

lemma featureIds_put:
  "\<exists>extra. featureIds (store (put i y c)) = featureIds (store c) @ extra
     \<and> set extra \<inter> set (featureIds (store c)) = {}"
  by (simp add: put_def)

lemma add_features_entries:
  assumes "\<forall>f\<in>set fs. feature_id f \<noteq> []"
  shows "case add_features d c fs of
           (c', Inl e) \<Rightarrow> (\<exists>i. entry_run (filter (\<lambda>f. feature_id f = i) fs) (view c i) = None)
         | (c', Inr ids) \<Rightarrow>
             ids = map feature_id fs
             \<and> (\<forall>i. entry_run (filter (\<lambda>f. feature_id f = i) fs) (view c i) = Some (view c' i))
             \<and> same_frame c c'
             \<and> (\<exists>extra. featureIds (store c') = featureIds (store c) @ extra
                   \<and> set extra \<inter> set (featureIds (store c)) = {})"
  using assms
proof (induction fs arbitrary: c)
  case Nil
  show ?case by (simp add: same_frame_def)
next
  case (Cons f fs)
  let ?i = "feature_id f"
  have f: "?i \<noteq> []" and rest: "\<forall>f\<in>set fs. feature_id f \<noteq> []"
    using Cons.prems by simp_all
  show ?case
  proof (cases "entry_step f (view c ?i)")
    case None
    from add_feature_fails [OF f None] obtain e where "add_feature d c f = (c, Inl e)"
      by blast
    moreover have "entry_run (filter (\<lambda>g. feature_id g = ?i) (f # fs)) (view c ?i) = None"
      using None by simp
    ultimately show ?thesis
      by (simp del: filter.simps entry_run.simps) blast
  next
    case (Some y)
    let ?c1 = "put ?i y c"
    have step: "add_feature d c f = (?c1, Inr ?i)"
      using f Some by (rule add_feature_puts)
    have run: "entry_run (filter (\<lambda>g. feature_id g = j) (f # fs)) (view c j)
        = entry_run (filter (\<lambda>g. feature_id g = j) fs) (view ?c1 j)" for j
      using Some by (cases "j = ?i") (simp_all add: view_put_same view_put_other)
    obtain c' r where res: "add_features d ?c1 fs = (c', r)"
      by (cases "add_features d ?c1 fs")
    show ?thesis
    proof (cases r)
      case (Inl e)
      with Cons.IH [OF rest, of ?c1] res obtain j where
        "entry_run (filter (\<lambda>g. feature_id g = j) fs) (view ?c1 j) = None"
        by auto
      then have "entry_run (filter (\<lambda>g. feature_id g = j) (f # fs)) (view c j) = None"
        by (simp only: run)
      then have ex: "\<exists>j. entry_run (filter (\<lambda>g. feature_id g = j) (f # fs)) (view c j) = None"
        by blast
      have "add_features d c (f # fs) = (c', Inl e)"
        using step res Inl by simp
      then show ?thesis
        by (simp only: prod.case sum.case) (rule ex)
    next
      case (Inr ids)
      with Cons.IH [OF rest, of ?c1] res have ih:
        "ids = map feature_id fs"
        "\<forall>j. entry_run (filter (\<lambda>g. feature_id g = j) fs) (view ?c1 j) = Some (view c' j)"
        "same_frame ?c1 c'"
        "\<exists>extra. featureIds (store c') = featureIds (store ?c1) @ extra
             \<and> set extra \<inter> set (featureIds (store ?c1)) = {}"
        by auto
      have a: "\<forall>j. entry_run (filter (\<lambda>g. feature_id g = j) (f # fs)) (view c j) = Some (view c' j)"
        using ih(2) run by simp
      have b: "same_frame c c'"
        using same_frame_put ih(3) by (rule same_frame_trans)
      have e: "\<exists>extra. featureIds (store c') = featureIds (store c) @ extra
             \<and> set extra \<inter> set (featureIds (store c)) = {}"
      proof -
        from ih(4) obtain e2 where e2: "featureIds (store c') = featureIds (store ?c1) @ e2"
          "set e2 \<inter> set (featureIds (store ?c1)) = {}"
          by blast
        from featureIds_put [of ?i y c] obtain e1 where e1:
          "featureIds (store ?c1) = featureIds (store c) @ e1"
          "set e1 \<inter> set (featureIds (store c)) = {}"
          by blast
        have "featureIds (store c') = featureIds (store c) @ (e1 @ e2)"
          using e1(1) e2(1) by simp
        moreover have "set (e1 @ e2) \<inter> set (featureIds (store c)) = {}"
          using e1 e2(2) by auto
        ultimately show ?thesis by blast
      qed
      have "add_features d c (f # fs) = (c', Inr (?i # ids))"
        using step res Inr by simp
      moreover have "?i # ids = map feature_id (f # fs)"
        using ih(1) by simp
      ultimately show ?thesis
        using a b e by (simp only: prod.case sum.case) blast
    qed
  qed
qed

lemma api_delete_features:
  "features (store (api_delete c xs)) = (\<lambda>i. if i \<in> set xs then None else features (store c) i)"
  by (simp add: api_delete_def events_changeMode_def store_delete_def store_render_def Let_def)

lemma api_delete_featureIds:
  "featureIds (store (api_delete c xs)) = filter (\<lambda>i. i \<notin> set xs) (featureIds (store c))"
  by (simp add: api_delete_def events_changeMode_def store_delete_def store_render_def Let_def)

lemma api_delete_batch_open:
  "batch_open (store (api_delete c xs)) = batch_open (store c)"
  by (simp add: api_delete_def events_changeMode_def store_delete_def store_render_def Let_def)

lemma api_set_success:
  assumes "api_set d c (FeatureCollection fs) = (c1, Inr ids)"
  shows "filter (\<lambda>e. level e \<noteq> ''message'') (hint d (FeatureCollection fs)) = []
    \<and> (\<exists>ca. add_features d (c\<lparr>store := store_createRenderBatch (store c)\<rparr>) fs = (ca, Inr ids)
          \<and> c1 = (let c2 = ca\<lparr>store := store_render (store ca)\<rparr>;
                       toDelete1 = filter (\<lambda>i. i \<notin> set ids) (featureIds (store c));
                       c3 = (if toDelete1 \<noteq> [] then api_delete c2 toDelete1 else c2)
                   in c3\<lparr>store := store_closeRenderBatch (store c3)\<rparr>))"
  using assms
  by (auto simp: api_set_def api_add_def normalize_def store_getAllIds_def
      store_createRenderBatch_def Let_def
      split: list.splits prod.splits sum.splits if_splits)

lemma set_again:
  assumes has_ids: "\<forall>f\<in>set fs. feature_id f \<noteq> []"
    and typed: "\<forall>i e. features (store c) i = Some e \<longrightarrow> own_model (ftype e) \<noteq> None"
    and first: "api_set d c (FeatureCollection fs) = (c1, Inr ids)"
  shows "api_set d c1 (FeatureCollection fs)
     = (c1\<lparr>store := (store c1)\<lparr>renders := Suc (renders (store c1))\<rparr>\<rparr>, Inr ids)"
proof -
  define cb where "cb = c\<lparr>store := store_createRenderBatch (store c)\<rparr>"
  define td where "td = filter (\<lambda>i. i \<notin> set ids) (featureIds (store c))"
  from api_set_success [OF first] obtain ca where
    hint_ok: "filter (\<lambda>e. level e \<noteq> ''message'') (hint d (FeatureCollection fs)) = []"
    and pass: "add_features d cb fs = (ca, Inr ids)"
    and c1: "c1 = (let c2 = ca\<lparr>store := store_render (store ca)\<rparr>;
                       c3 = (if td \<noteq> [] then api_delete c2 td else c2)
                   in c3\<lparr>store := store_closeRenderBatch (store c3)\<rparr>)"
    by (auto simp: cb_def td_def Let_def)
  from add_features_entries [OF has_ids, where d = d and c = cb] pass have
    ids: "ids = map feature_id fs"
    and runs: "\<forall>i. entry_run (filter (\<lambda>f. feature_id f = i) fs) (view cb i) = Some (view ca i)"
    and frame: "same_frame cb ca"
    by auto
  have view_cb: "view cb i = view c i" for i
    by (simp add: view_def cb_def store_createRenderBatch_def)
  have open_ca: "batch_open (store ca)"
    using frame by (simp add: same_frame_def cb_def store_createRenderBatch_def)
  then have c2: "ca\<lparr>store := store_render (store ca)\<rparr> = ca"
    by (simp add: store_render_def)
  define c3 where "c3 = (if td \<noteq> [] then api_delete ca td else ca)"
  have c1': "c1 = c3\<lparr>store := store_closeRenderBatch (store c3)\<rparr>"
    using c1 by (simp add: c2 c3_def Let_def)
  have outside: "view ca i = view c i" if "i \<notin> set ids" for i
  proof -
    have "filter (\<lambda>f. feature_id f = i) fs = []"
      using that ids by (auto simp: filter_empty_conv)
    with runs [rule_format, of i] show ?thesis
      by (simp add: view_cb)
  qed
  have td_set: "set td = set (featureIds (store c)) - set ids"
    by (auto simp: td_def)
  have c3_feat: "features (store c3) i = features (store ca) i" if "i \<in> set ids" for i
    using that td_set by (simp add: c3_def api_delete_features)
  have c3_ids_in: "i \<in> set (featureIds (store c3)) \<longleftrightarrow> i \<in> set (featureIds (store ca))"
    if "i \<in> set ids" for i
    using that td_set by (auto simp: c3_def api_delete_featureIds)
  have c3_ids_sub: "set (featureIds (store c3)) \<subseteq> set ids"
  proof
    fix i assume i: "i \<in> set (featureIds (store c3))"
    show "i \<in> set ids"
    proof (rule ccontr)
      assume out: "i \<notin> set ids"
      have in_ca: "i \<in> set (featureIds (store ca))"
        using i by (auto simp: c3_def api_delete_featureIds split: if_splits)
      with outside [OF out] have in_c: "i \<in> set (featureIds (store c))"
        by (simp add: view_def)
      with out have in_td: "i \<in> set td"
        by (simp add: td_set)
      then have "td \<noteq> []" by auto
      with i in_td show False
        by (simp add: c3_def api_delete_featureIds)
    qed
  qed
  have c3_open: "batch_open (store c3)"
    using open_ca by (simp add: c3_def api_delete_batch_open)
  have closed: "\<not> batch_open (store c1)"
    by (simp add: c1' store_closeRenderBatch_def)
  define cb' where "cb' = c1\<lparr>store := store_createRenderBatch (store c1)\<rparr>"
  have view_cb': "view cb' i = (features (store c3) i, i \<in> set (featureIds (store c3)))" for i
    by (simp add: view_def cb'_def c1' store_createRenderBatch_def store_closeRenderBatch_def)
  have ids_cb': "set (featureIds (store cb')) \<subseteq> set ids"
    using c3_ids_sub
    by (simp add: cb'_def c1' store_createRenderBatch_def store_closeRenderBatch_def)
  have again: "entry_run (filter (\<lambda>f. feature_id f = i) fs) (view cb' i) = Some (view cb' i)" for i
  proof (cases "i \<in> set ids")
    case True
    have "view cb' i = (features (store ca) i, i \<in> set (featureIds (store ca)))"
      using c3_feat [OF True] c3_ids_in [OF True] by (simp add: view_cb')
    then have eq: "view cb' i = view ca i"
      by (simp add: view_def)
    have "entry_ok (view c i)"
      using typed by (auto simp: entry_ok_def view_def split: option.splits)
    then have "entry_ok (view cb i)"
      by (simp only: view_cb)
    with runs [rule_format, of i] show ?thesis
      unfolding eq by (rule entry_run_again)
  next
    case False
    then have "filter (\<lambda>f. feature_id f = i) fs = []"
      using ids by (auto simp: filter_empty_conv)
    then show ?thesis by simp
  qed
  obtain ca' r where res: "add_features d cb' fs = (ca', r)"
    by (cases "add_features d cb' fs")
  from add_features_entries [OF has_ids, where d = d and c = cb'] res again obtain
    r: "r = Inr ids"
    and views: "\<forall>i. view ca' i = view cb' i"
    and frame': "same_frame cb' ca'"
    and extra: "\<exists>extra. featureIds (store ca') = featureIds (store cb') @ extra
                  \<and> set extra \<inter> set (featureIds (store cb')) = {}"
    by (cases r) (auto simp: ids)
  have feat_eq: "features (store ca') = features (store cb')"
  proof
    fix i
    from views have "view ca' i = view cb' i" by blast
    then show "features (store ca') i = features (store cb') i"
      by (simp add: view_def)
  qed
  have ids_eq: "featureIds (store ca') = featureIds (store cb')"
  proof -
    from extra obtain ex where ex: "featureIds (store ca') = featureIds (store cb') @ ex"
      "set ex \<inter> set (featureIds (store cb')) = {}"
      by blast
    have "ex = []"
    proof (rule ccontr)
      assume "ex \<noteq> []"
      then obtain i where i: "i \<in> set ex"
        by (cases ex) auto
      then have "i \<in> set (featureIds (store ca'))"
        by (simp add: ex(1))
      moreover from views have "view ca' i = view cb' i" by blast
      ultimately have "i \<in> set (featureIds (store cb'))"
        by (simp add: view_def)
      with i ex(2) show False by auto
    qed
    with ex(1) show ?thesis by simp
  qed
  have store_eq: "store ca' = store cb'"
    using feat_eq ids_eq frame' by (intro store.equality) (simp_all add: same_frame_def)
  have ca': "ca' = cb'"
    using store_eq frame' by (intro ctx.equality) (simp_all add: same_frame_def)
  have pass2: "add_features d cb' fs = (cb', Inr ids)"
    using res r ca' by simp
  have open_cb': "batch_open (store cb')"
    by (simp add: cb'_def store_createRenderBatch_def)
  have no_delete: "filter (\<lambda>i. i \<notin> set ids) (featureIds (store cb')) = []"
    using ids_cb' by (auto simp: filter_empty_conv)
  have final: "cb'\<lparr>store := store_closeRenderBatch (store cb')\<rparr>
      = c1\<lparr>store := (store c1)\<lparr>renders := Suc (renders (store c1))\<rparr>\<rparr>"
    using closed
    by (intro ctx.equality store.equality)
       (simp_all add: cb'_def store_createRenderBatch_def store_closeRenderBatch_def)
  have "api_set d c1 (FeatureCollection fs)
      = (cb'\<lparr>store := store_closeRenderBatch (store cb')\<rparr>, Inr ids)"
    using hint_ok pass2 open_cb' no_delete
    by (simp add: api_set_def api_add_def normalize_def store_getAllIds_def store_render_def
        cb'_def [symmetric] Let_def)
  with final show ?thesis by simp
qed

section \<open>Merging\<close>

text \<open>
  C4. Not every merge of two or more ids that resolve adds a feature of type \<open>Multi\<close>
  followed by the type of the first: when the first resolved feature is itself a
  composite, the constructor is handed the tag \<open>MultiMultiPoint\<close>, which is none of the
  variants; it raises, and nothing is added.
\<close>

theorem merge_builds_multi_counterexample:
  "store_get (store two_multipoints_ctx) ''m1'' = Some (multipoint_feature ''m1'' 1)
   \<and> store_get (store two_multipoints_ctx) ''m2'' = Some (multipoint_feature ''m2'' 2)
   \<and> api_mergeSelectedFeatures example_deps two_multipoints_ctx (Some [''m1'', ''m2''])
       = (two_multipoints_ctx, Inl TypeError)"
  by (simp add: api_mergeSelectedFeatures_def new_feature_def multi_types_def getCoordinates_def
      store_defs example_defs Let_def)

text \<open>
  C4, as amended. A merge of two or more ids that all resolve, the first of them to a
  single-part feature (a Point, a LineString or a Polygon), adds one feature: its id is
  the next generated id, its type is \<open>Multi\<close> followed by the type of the first resolved
  feature, its coordinates are the coordinates, in order, of the resolved features of
  that type (the others are skipped), and its properties are empty. It is the feature of
  the one creation event, and the store is the old one with it added and the given ids
  deleted.
\<close>

theorem merge_builds_multi:
  assumes "map (store_get (store c)) ids = map Some (f0 # rest)" and "rest \<noteq> []"
    and "ftype f0 \<in> {''Point'', ''LineString'', ''Polygon''}"
  shows "api_mergeSelectedFeatures d c (Some ids) =
     (let multiFeature =
            \<lparr>fid = hat d (hat_calls c), ftype = ''Multi'' @ ftype f0, fmodel = MultiFeature,
             properties = [],
             coordinates = Arr (map coordinates (filter (\<lambda>f. ftype f = ftype f0) (f0 # rest)))\<rparr>
      in (c\<lparr>hat_calls := Suc (hat_calls c),
            store := store_delete ids False (store_add multiFeature (store c)),
            map_fired := map_fired c @ [(CREATE, [toGeoJSON multiFeature])]\<rparr>, Inr Api))"
  using assms by (rule merge_all_live)

text \<open>
  The scenario of the specification: the LineStrings \<open>idA\<close> and \<open>idB\<close> become one
  MultiLineString, and neither id is in the store afterwards.
\<close>

theorem merge_builds_multi_witness:
  "map_fired (fst (api_mergeSelectedFeatures example_deps two_lines_ctx (Some [''idA'', ''idB''])))
     = [(CREATE, [\<lparr>gid = Some ''h'', gproperties = [],
                   ggeometry = Some \<lparr>gtype = ''MultiLineString'',
                     gcoordinates = Arr [Arr [Arr [Num 0, Num 0], Arr [Num 1, Num 1]],
                                         Arr [Arr [Num 2, Num 2], Arr [Num 3, Num 3]]]\<rparr>\<rparr>])]
   \<and> store_getAll (store (fst (api_mergeSelectedFeatures example_deps two_lines_ctx
                                  (Some [''idA'', ''idB'']))))
     = [\<lparr>fid = ''h'', ftype = ''MultiLineString'', fmodel = MultiFeature, properties = [],
         coordinates = Arr [Arr [Arr [Num 0, Num 0], Arr [Num 1, Num 1]],
                            Arr [Arr [Num 2, Num 2], Arr [Num 3, Num 3]]]\<rparr>]"
proof -
  have h1: "map (store_get (store two_lines_ctx)) [''idA'', ''idB'']
      = map Some (line_feature ''idA'' 0 1 # [line_feature ''idB'' 2 3])"
    by (simp add: store_defs example_defs)
  have h2: "[line_feature ''idB'' 2 3] \<noteq> []"
    by simp
  have h3: "ftype (line_feature ''idA'' 0 1) \<in> {''Point'', ''LineString'', ''Polygon''}"
    by (simp add: example_defs)
  from merge_builds_multi [OF h1 h2 h3, of example_deps] show ?thesis
    by (simp add: store_defs example_defs toGeoJSON_def getCoordinates_def Let_def
        List.map_filter_def)
qed

text \<open>
  C6. With two ids of which one or both are in no store entry, the merge is no silent
  no-op: the entry pushed for a dead id is \<^verbatim>\<open>undefined\<close>, the length guard of line 174
  counts it, and reading its \<^verbatim>\<open>type\<close> raises.
\<close>

theorem merge_dead_ids_raise:
  "api_mergeSelectedFeatures example_deps empty_ctx (Some [''x'', ''y''])
     = (empty_ctx, Inl TypeError)
   \<and> api_mergeSelectedFeatures example_deps two_points_ctx (Some [''a'', ''x''])
       = (two_points_ctx, Inl TypeError)"
  by (simp add: api_mergeSelectedFeatures_def store_defs example_defs Let_def)

text \<open>
  C8. Merge and split do not return the api object for every input: the guards of lines
  168 and 209 are a bare \<^verbatim>\<open>return\<close>.
\<close>

theorem merge_split_return_counterexample:
  "snd (api_mergeSelectedFeatures example_deps two_points_ctx (Some [''a''])) \<noteq> Inr Api
   \<and> snd (api_splitSelectedFeatures example_deps two_points_ctx None) \<noteq> Inr Api"
  by (simp add: api_mergeSelectedFeatures_def api_splitSelectedFeatures_def)

text \<open>
  C8, as amended. A merge without an id list or with fewer than two ids changes nothing
  and returns \<^verbatim>\<open>undefined\<close>; a merge of two or more ids that all resolve, the first of
  them to a single-part feature, returns the api object. A split without an id list
  changes nothing and returns \<^verbatim>\<open>undefined\<close>; a split of any id list returns the api
  object, also when no id resolves or none is composite.
\<close>

theorem merge_split_return:
  "api_mergeSelectedFeatures d c None = (c, Inr Undefined)
   \<and> (length ids < 2 \<longrightarrow> api_mergeSelectedFeatures d c (Some ids) = (c, Inr Undefined))
   \<and> (2 \<le> length ids \<and> (\<forall>i\<in>set ids. store_get (store c) i \<noteq> None)
        \<and> (\<exists>f0. store_get (store c) (hd ids) = Some f0
               \<and> ftype f0 \<in> {''Point'', ''LineString'', ''Polygon''})
        \<longrightarrow> snd (api_mergeSelectedFeatures d c (Some ids)) = Inr Api)
   \<and> api_splitSelectedFeatures d c None = (c, Inr Undefined)
   \<and> snd (api_splitSelectedFeatures d c (Some ids)) = Inr Api"
proof -
  have m3: "snd (api_mergeSelectedFeatures d c (Some ids)) = Inr Api"
    if len: "2 \<le> length ids" and live: "\<forall>i\<in>set ids. store_get (store c) i \<noteq> None"
      and first: "\<exists>f0. store_get (store c) (hd ids) = Some f0
               \<and> ftype f0 \<in> {''Point'', ''LineString'', ''Polygon''}"
  proof -
    from len obtain i j js where ids: "ids = i # j # js"
      by (cases ids; cases "tl ids") auto
    let ?g = "\<lambda>i. the (store_get (store c) i)"
    have all: "map (store_get (store c)) ids = map Some (?g i # map ?g (j # js))"
      using all_live_map_Some [OF live] ids by simp
    have more: "map ?g (j # js) \<noteq> []" by simp
    have single: "ftype (?g i) \<in> {''Point'', ''LineString'', ''Polygon''}"
      using first ids by auto
    from merge_all_live [OF all more single, of d] show ?thesis
      by (simp add: Let_def)
  qed
  have s2: "snd (api_splitSelectedFeatures d c (Some ids)) = Inr Api"
    by (rule split_returns_api)
  show ?thesis
    using m3 s2
    by (simp add: api_mergeSelectedFeatures_def api_splitSelectedFeatures_def)
qed

theorem merge_split_return_witness:
  "api_mergeSelectedFeatures example_deps two_lines_ctx (Some [''idA''])
     = (two_lines_ctx, Inr Undefined)
   \<and> snd (api_mergeSelectedFeatures example_deps two_lines_ctx (Some [''idA'', ''idB''])) = Inr Api
   \<and> snd (api_splitSelectedFeatures example_deps two_lines_ctx (Some [''idA'', ''idB''])) = Inr Api"
proof -
  have h1: "length [''idA''] < 2" by simp
  have h2: "2 \<le> length [''idA'', ''idB'']
     \<and> (\<forall>i\<in>set [''idA'', ''idB'']. store_get (store two_lines_ctx) i \<noteq> None)
     \<and> (\<exists>f0. store_get (store two_lines_ctx) (hd [''idA'', ''idB'']) = Some f0
               \<and> ftype f0 \<in> {''Point'', ''LineString'', ''Polygon''})"
    by (simp add: store_defs example_defs)
  from merge_split_return [of example_deps two_lines_ctx "[''idA'']"] h1
  have a: "api_mergeSelectedFeatures example_deps two_lines_ctx (Some [''idA''])
      = (two_lines_ctx, Inr Undefined)"
    by blast
  from merge_split_return [of example_deps two_lines_ctx "[''idA'', ''idB'']"] h2
  have b: "snd (api_mergeSelectedFeatures example_deps two_lines_ctx (Some [''idA'', ''idB''])) = Inr Api
     \<and> snd (api_splitSelectedFeatures example_deps two_lines_ctx (Some [''idA'', ''idB''])) = Inr Api"
    by blast
  from a b show ?thesis by blast
qed

section \<open>Splitting\<close>

text \<open>
  C9. A split never raises, and an id that resolves to no stored feature is skipped like
  the id of a feature that is not composite: the call does what it does on the list
  without the dead ids, and on the list of the ids of composites alone.
\<close>

theorem split_dead_id_skipped:
  "snd (api_splitSelectedFeatures d c (Some ids)) = Inr Api
   \<and> api_splitSelectedFeatures d c (Some ids)
       = api_splitSelectedFeatures d c (Some (filter (\<lambda>i. store_get (store c) i \<noteq> None) ids))
   \<and> api_splitSelectedFeatures d c (Some ids)
       = api_splitSelectedFeatures d c
           (Some (filter (\<lambda>i. case store_get (store c) i of None \<Rightarrow> False
                                | Some f \<Rightarrow> fmodel f = MultiFeature) ids))"
proof -
  have "snd (api_splitSelectedFeatures d c (Some ids)) = Inr Api"
    by (rule split_returns_api)
  moreover have "api_splitSelectedFeatures d c (Some ids)
       = api_splitSelectedFeatures d c (Some (filter (\<lambda>i. store_get (store c) i \<noteq> None) ids))"
    unfolding api_splitSelectedFeatures_def
    by (simp only: option.case Let_def split_loop_skip_dead)
  moreover have "api_splitSelectedFeatures d c (Some ids)
       = api_splitSelectedFeatures d c
           (Some (filter (\<lambda>i. case store_get (store c) i of None \<Rightarrow> False
                                | Some f \<Rightarrow> fmodel f = MultiFeature) ids))"
    unfolding api_splitSelectedFeatures_def
    by (simp only: option.case Let_def split_loop_skip_single)
  ultimately show ?thesis by blast
qed

text \<open>
  C10. A split of an id list (the empty list too: an array is truthy) fires exactly one
  creation event, after the loop, with the features the loop collected; when no id
  resolves to a composite the loop changes nothing and the event carries the empty list.
\<close>

theorem split_fires_one_create:
  "map_fired (fst (api_splitSelectedFeatures d c (Some ids)))
     = map_fired c @ [(CREATE, snd (split_loop d c (map (store_get (store c)) ids) []))]
   \<and> ((\<forall>i\<in>set ids. case store_get (store c) i of None \<Rightarrow> True
                       | Some f \<Rightarrow> fmodel f \<noteq> MultiFeature)
        \<longrightarrow> api_splitSelectedFeatures d c (Some ids)
              = (c\<lparr>map_fired := map_fired c @ [(CREATE, [])]\<rparr>, Inr Api))"
proof -
  have fired: "map_fired (fst (split_loop d c (map (store_get (store c)) ids) [])) = map_fired c"
    by (rule split_loop_map_fired)
  have one: "map_fired (fst (api_splitSelectedFeatures d c (Some ids)))
     = map_fired c @ [(CREATE, snd (split_loop d c (map (store_get (store c)) ids) []))]"
    using fired
    by (cases "split_loop d c (map (store_get (store c)) ids) []")
       (simp add: api_splitSelectedFeatures_def)
  have none: "api_splitSelectedFeatures d c (Some ids)
              = (c\<lparr>map_fired := map_fired c @ [(CREATE, [])]\<rparr>, Inr Api)"
    if "\<forall>i\<in>set ids. case store_get (store c) i of None \<Rightarrow> True
                       | Some f \<Rightarrow> fmodel f \<noteq> MultiFeature"
  proof -
    from that have "\<forall>x\<in>set (map (store_get (store c)) ids).
        case x of None \<Rightarrow> True | Some f \<Rightarrow> fmodel f \<noteq> MultiFeature"
      by simp
    then have "split_loop d c (map (store_get (store c)) ids) [] = (c, [])"
      by (rule split_loop_no_composite)
    then show ?thesis by (simp add: api_splitSelectedFeatures_def)
  qed
  from one none show ?thesis by blast
qed

theorem split_fires_one_create_witness:
  "map_fired (fst (api_splitSelectedFeatures example_deps two_points_ctx (Some [''a'', ''zz''])))
     = [(CREATE, [])]
   \<and> api_splitSelectedFeatures example_deps two_points_ctx (Some [''a'', ''zz''])
       = (two_points_ctx\<lparr>map_fired := [(CREATE, [])]\<rparr>, Inr Api)"
proof -
  have h: "\<forall>i\<in>set [''a'', ''zz'']. case store_get (store two_points_ctx) i of None \<Rightarrow> True
                       | Some f \<Rightarrow> fmodel f \<noteq> MultiFeature"
    by (simp add: store_defs example_defs)
  have m: "map_fired two_points_ctx = []"
    by (simp add: example_defs)
  from split_fires_one_create [of example_deps two_points_ctx "[''a'', ''zz'']"] h m
  show ?thesis by simp
qed

section \<open>Merging, then splitting\<close>

text \<open>
  C2. Let the ids all resolve (to the features \<open>fs\<close>, in order) to features of one
  single-part type \<open>t\<close>, two or more, and let the ids that \<^verbatim>\<open>hat\<close> generates be new: the
  next one for the composite, the following ones for its parts. Then the merge stores
  the composite under the next id, and the split of that id leaves the store with what
  it held without the merged ids, followed by one feature per merged id: of type \<open>t\<close>,
  not composite, with empty properties, and with the coordinates of the originals in
  order.
\<close>

theorem merge_then_split_roundtrip:
  assumes "map (store_get (store c)) ids = map Some fs"
    and "2 \<le> length ids"
    and "\<forall>f\<in>set fs. ftype f = t"
    and "t \<in> {''Point'', ''LineString'', ''Polygon''}"
    and "distinct (map (hat d) [hat_calls c ..< hat_calls c + Suc (length ids)])"
    and "\<forall>k\<in>set [hat_calls c ..< hat_calls c + Suc (length ids)].
           features (store c) (hat d k) = None \<and> hat d k \<notin> set (featureIds (store c))"
  shows "snd (api_mergeSelectedFeatures d c (Some ids)) = Inr Api
    \<and> (\<exists>mf. store_get (store (fst (api_mergeSelectedFeatures d c (Some ids)))) (hat d (hat_calls c))
              = Some mf \<and> ftype mf = ''Multi'' @ t \<and> fmodel mf = MultiFeature)
    \<and> snd (api_splitSelectedFeatures d (fst (api_mergeSelectedFeatures d c (Some ids)))
              (Some [hat d (hat_calls c)])) = Inr Api
    \<and> store_getAll (store (fst (api_splitSelectedFeatures d
              (fst (api_mergeSelectedFeatures d c (Some ids))) (Some [hat d (hat_calls c)]))))
        = store_getAll (store_delete ids True (store c))
          @ map (part_feature d t) (enumerate (Suc (hat_calls c)) (map coordinates fs))
    \<and> length (map (part_feature d t) (enumerate (Suc (hat_calls c)) (map coordinates fs)))
        = length ids
    \<and> map coordinates (map (part_feature d t) (enumerate (Suc (hat_calls c)) (map coordinates fs)))
        = map coordinates fs
    \<and> (\<forall>p\<in>set (map (part_feature d t) (enumerate (Suc (hat_calls c)) (map coordinates fs))).
          ftype p = t \<and> fmodel p \<noteq> MultiFeature \<and> properties p = [])"
proof -
  have n: "length fs = length ids"
    using assms(1) by (metis length_map)
  have len: "length (map (part_feature d t) (enumerate (Suc (hat_calls c)) (map coordinates fs)))
        = length ids"
    using n by simp
  have single: "part_model t \<noteq> MultiFeature"
    using assms(4) by (auto simp: part_model_def own_model_def)
  have each: "\<forall>p\<in>set (map (part_feature d t) (enumerate (Suc (hat_calls c)) (map coordinates fs))).
          ftype p = t \<and> fmodel p \<noteq> MultiFeature \<and> properties p = []"
    using single by (auto simp: part_feature_def)
  from split_of_merged [OF assms] len coordinates_part_features each
  show ?thesis by blast
qed

text \<open>The two LineStrings of the specification's scenario, merged and split again.\<close>

theorem merge_then_split_roundtrip_witness:
  "store_getAll (store (fst (api_splitSelectedFeatures example_deps
       (fst (api_mergeSelectedFeatures example_deps two_lines_ctx (Some [''idA'', ''idB''])))
       (Some [''h'']))))
     = [\<lparr>fid = ''hh'', ftype = ''LineString'', fmodel = LineString, properties = [],
         coordinates = Arr [Arr [Num 0, Num 0], Arr [Num 1, Num 1]]\<rparr>,
        \<lparr>fid = ''hhh'', ftype = ''LineString'', fmodel = LineString, properties = [],
         coordinates = Arr [Arr [Num 2, Num 2], Arr [Num 3, Num 3]]\<rparr>]
   \<and> map coordinates (store_getAll (store two_lines_ctx))
     = [Arr [Arr [Num 0, Num 0], Arr [Num 1, Num 1]], Arr [Arr [Num 2, Num 2], Arr [Num 3, Num 3]]]"
proof -
  have h1: "map (store_get (store two_lines_ctx)) [''idA'', ''idB'']
      = map Some [line_feature ''idA'' 0 1, line_feature ''idB'' 2 3]"
    by (simp add: store_defs example_defs)
  have h2: "2 \<le> length [''idA'', ''idB'']"
    by simp
  have h3: "\<forall>f\<in>set [line_feature ''idA'' 0 1, line_feature ''idB'' 2 3]. ftype f = ''LineString''"
    by (simp add: example_defs)
  have h4: "''LineString'' \<in> {''Point'', ''LineString'', ''Polygon''}"
    by simp
  have k: "hat_calls two_lines_ctx = 0"
    by (simp add: example_defs)
  have h5: "distinct (map (hat example_deps)
      [hat_calls two_lines_ctx ..< hat_calls two_lines_ctx + Suc (length [''idA'', ''idB''])])"
    by (simp add: k example_defs upt_rec)
  have h6: "\<forall>k\<in>set [hat_calls two_lines_ctx ..<
                     hat_calls two_lines_ctx + Suc (length [''idA'', ''idB''])].
           features (store two_lines_ctx) (hat example_deps k) = None
           \<and> hat example_deps k \<notin> set (featureIds (store two_lines_ctx))"
    by (simp add: k store_defs example_defs upt_rec)
  have old: "store_getAll (store_delete [''idA'', ''idB''] True (store two_lines_ctx)) = []"
    by (simp add: store_defs example_defs List.map_filter_def)
  have parts: "map (part_feature example_deps ''LineString'')
      (enumerate (Suc (hat_calls two_lines_ctx))
         (map coordinates [line_feature ''idA'' 0 1, line_feature ''idB'' 2 3]))
     = [\<lparr>fid = ''hh'', ftype = ''LineString'', fmodel = LineString, properties = [],
         coordinates = Arr [Arr [Num 0, Num 0], Arr [Num 1, Num 1]]\<rparr>,
        \<lparr>fid = ''hhh'', ftype = ''LineString'', fmodel = LineString, properties = [],
         coordinates = Arr [Arr [Num 2, Num 2], Arr [Num 3, Num 3]]\<rparr>]"
    by (simp add: k part_feature_def part_model_def own_model_def example_defs)
  have before: "map coordinates (store_getAll (store two_lines_ctx))
     = [Arr [Arr [Num 0, Num 0], Arr [Num 1, Num 1]], Arr [Arr [Num 2, Num 2], Arr [Num 3, Num 3]]]"
    by (simp add: store_defs example_defs List.map_filter_def)
  have m: "hat example_deps (hat_calls two_lines_ctx) = ''h''"
    by (simp add: k example_defs)
  from merge_then_split_roundtrip [OF h1 h2 h3 h4 h5 h6]
  have "store_getAll (store (fst (api_splitSelectedFeatures example_deps
       (fst (api_mergeSelectedFeatures example_deps two_lines_ctx (Some [''idA'', ''idB''])))
       (Some [hat example_deps (hat_calls two_lines_ctx)]))))
     = store_getAll (store_delete [''idA'', ''idB''] True (store two_lines_ctx))
       @ map (part_feature example_deps ''LineString'')
           (enumerate (Suc (hat_calls two_lines_ctx))
              (map coordinates [line_feature ''idA'' 0 1, line_feature ''idB'' 2 3]))"
    by blast
  then show ?thesis
    unfolding old parts m using before by simp
qed

section \<open>Ingestion\<close>

text \<open>
  C1. Ingestion is not all-or-nothing: the null-geometry and the invalid-type error are
  raised inside the loop over the features, after the features before the offending one
  went to the store. Here \<open>a\<close> is in the store after the failed \<^verbatim>\<open>add\<close>, and after the
  failed \<^verbatim>\<open>set\<close>.
\<close>

theorem add_error_counterexample:
  "snd (api_add example_deps empty_ctx
          (FeatureCollection [gj_point (Some ''a'') 1 2, gj_null (Some ''b'')]))
     = Inl (Error ''Invalid geometry: null'')
   \<and> store_getAllIds (store (fst (api_add example_deps empty_ctx
          (FeatureCollection [gj_point (Some ''a'') 1 2, gj_null (Some ''b'')])))) = [''a'']
   \<and> store_getAllIds (store empty_ctx) = []
   \<and> snd (api_set example_deps empty_ctx
          (FeatureCollection [gj_point (Some ''a'') 1 2, gj_collection (Some ''b'')]))
     = Inl (Error ''Invalid geometry type: GeometryCollection.'')
   \<and> store_getAllIds (store (fst (api_set example_deps empty_ctx
          (FeatureCollection [gj_point (Some ''a'') 1 2, gj_collection (Some ''b'')])))) = [''a'']"
  by (simp add: api_add_def api_set_def add_feature_def normalize_def store_defs example_defs
      feature_defs gj_defs Let_def)

text \<open>
  C1, as amended. \<^verbatim>\<open>add\<close> leaves the context as it was when it raises the validator's
  first issue that is no mere message. \<^verbatim>\<open>set\<close> leaves the context as it was when it
  raises for an input that is no FeatureCollection (a \<open>TypeError\<close> for \<^verbatim>\<open>null\<close> and
  \<^verbatim>\<open>undefined\<close>). When \<^verbatim>\<open>set\<close> raises the validator's issue, nothing of the store has
  changed but that the render batch it opened stays open. An error raised in the loop, at
  the feature \<open>bad\<close>, is the null-geometry error, the invalid-type error, or the
  \<open>TypeError\<close> of \<^verbatim>\<open>new\<close> for a type tag that names an inherited member which is no
  constructor; it leaves the store as it is after the ingestion of the features \<open>pre\<close>
  before \<open>bad\<close>, and nothing of \<open>bad\<close> and of the features after it is ingested.
  \<^verbatim>\<open>set\<close> raises what \<^verbatim>\<open>add\<close> raises, in the context \<^verbatim>\<open>add\<close> leaves, the render batch
  open.
\<close>

theorem add_error_state:
  "(filter (\<lambda>e. level e \<noteq> ''message'') (hint d gj) = e0 # es
      \<longrightarrow> api_add d c gj = (c, Inl (Error (message e0))))
   \<and> api_set d c Nullish = (c, Inl TypeError)
   \<and> ((\<forall>fs. gj \<noteq> FeatureCollection fs) \<and> gj \<noteq> Nullish
      \<longrightarrow> api_set d c gj = (c, Inl (Error ''Invalid FeatureCollection'')))
   \<and> (filter (\<lambda>e. level e \<noteq> ''message'') (hint d (FeatureCollection fs)) = e0 # es
      \<longrightarrow> api_set d c (FeatureCollection fs)
            = (c\<lparr>store := store_createRenderBatch (store c)\<rparr>, Inl (Error (message e0))))
   \<and> (filter (\<lambda>e. level e \<noteq> ''message'') (hint d gj) = []
       \<and> normalize gj = Some (pre @ bad # post)
       \<and> add_features d c pre = (c1, Inr ids)
       \<and> add_feature d c1 bad = (c2, Inl e) \<and> e \<noteq> NotAFeature
      \<longrightarrow> api_add d c gj = (c2, Inl e) \<and> store c2 = store c1
          \<and> ((ggeometry bad = None \<and> e = Error ''Invalid geometry: null'')
             \<or> (\<exists>g. ggeometry bad = Some g \<and> featureTypes (gtype g) = None
                   \<and> e = Error (''Invalid geometry type: '' @ gtype g @ ''.''))
             \<or> (\<exists>g. ggeometry bad = Some g \<and> gtype g \<in> set object_members
                   \<and> gtype g \<noteq> ''constructor'' \<and> e = TypeError)))
   \<and> (snd (api_add d (c\<lparr>store := store_createRenderBatch (store c)\<rparr>) (FeatureCollection fs))
         = Inl e \<and> e \<noteq> NotAFeature
      \<longrightarrow> api_set d c (FeatureCollection fs)
            = api_add d (c\<lparr>store := store_createRenderBatch (store c)\<rparr>) (FeatureCollection fs))"
proof -
  have a: "api_add d c gj = (c, Inl (Error (message e0)))"
    if "filter (\<lambda>e. level e \<noteq> ''message'') (hint d gj) = e0 # es"
    using that by (simp add: api_add_def)
  have n: "api_set d c Nullish = (c, Inl TypeError)"
    by (simp add: api_set_def)
  have b: "api_set d c gj = (c, Inl (Error ''Invalid FeatureCollection''))"
    if "(\<forall>fs. gj \<noteq> FeatureCollection fs) \<and> gj \<noteq> Nullish"
    using that by (cases gj) (simp_all add: api_set_def)
  have s: "api_set d c (FeatureCollection fs)
            = (c\<lparr>store := store_createRenderBatch (store c)\<rparr>, Inl (Error (message e0)))"
    if "filter (\<lambda>e. level e \<noteq> ''message'') (hint d (FeatureCollection fs)) = e0 # es"
    using that by (simp add: api_set_def api_add_def Let_def)
  have l: "api_add d c gj = (c2, Inl e) \<and> store c2 = store c1
          \<and> ((ggeometry bad = None \<and> e = Error ''Invalid geometry: null'')
             \<or> (\<exists>g. ggeometry bad = Some g \<and> featureTypes (gtype g) = None
                   \<and> e = Error (''Invalid geometry type: '' @ gtype g @ ''.''))
             \<or> (\<exists>g. ggeometry bad = Some g \<and> gtype g \<in> set object_members
                   \<and> gtype g \<noteq> ''constructor'' \<and> e = TypeError))"
    if h: "filter (\<lambda>e. level e \<noteq> ''message'') (hint d gj) = []"
      and nm: "normalize gj = Some (pre @ bad # post)"
      and p: "add_features d c pre = (c1, Inr ids)"
      and f: "add_feature d c1 bad = (c2, Inl e)"
      and e: "e \<noteq> NotAFeature"
  proof -
    have "add_features d c (pre @ bad # post) = (c2, Inl e)"
      using p f by (simp add: add_features_append)
    then have "api_add d c gj = (c2, Inl e)"
      using h nm by (simp add: api_add_def)
    with add_feature_error_store [OF f] e show ?thesis by blast
  qed
  have t: "api_set d c (FeatureCollection fs)
            = api_add d (c\<lparr>store := store_createRenderBatch (store c)\<rparr>) (FeatureCollection fs)"
    if "snd (api_add d (c\<lparr>store := store_createRenderBatch (store c)\<rparr>) (FeatureCollection fs))
         = Inl e"
    using that
    by (cases "api_add d (c\<lparr>store := store_createRenderBatch (store c)\<rparr>) (FeatureCollection fs)")
       (simp add: api_set_def Let_def)
  from a n b s l t show ?thesis by blast
qed

theorem add_error_state_witness:
  "api_add example_deps two_points_ctx Other
     = (two_points_ctx, Inl (Error ''The type property is required and was not found''))
   \<and> api_set example_deps two_points_ctx (Geometry \<lparr>gtype = ''Point'', gcoordinates = Arr []\<rparr>)
     = (two_points_ctx, Inl (Error ''Invalid FeatureCollection''))
   \<and> api_set example_deps two_points_ctx (FeatureCollection [gj_bad_point (Some ''a'')])
     = (two_points_ctx\<lparr>store := store_createRenderBatch (store two_points_ctx)\<rparr>,
        Inl (Error ''position must be an array''))
   \<and> snd (api_add example_deps empty_ctx
          (FeatureCollection [gj_point (Some ''a'') 1 2, gj_null (Some ''b''),
                              gj_point (Some ''c'') 3 4]))
     = Inl (Error ''Invalid geometry: null'')
   \<and> store (fst (api_add example_deps empty_ctx
          (FeatureCollection [gj_point (Some ''a'') 1 2, gj_null (Some ''b''),
                              gj_point (Some ''c'') 3 4])))
     = store_add (point_feature ''a'' 1 2) empty_store
   \<and> api_set example_deps empty_ctx
          (FeatureCollection [gj_point (Some ''a'') 1 2, gj_null (Some ''b'')])
     = (empty_ctx\<lparr>store := store_add (point_feature ''a'' 1 2)
                                (store_createRenderBatch empty_store)\<rparr>,
        Inl (Error ''Invalid geometry: null''))"
proof -
  let ?gj = "FeatureCollection [gj_point (Some ''a'') 1 2, gj_null (Some ''b''),
                              gj_point (Some ''c'') 3 4]"
  let ?c1 = "empty_ctx\<lparr>store := store_add (point_feature ''a'' 1 2) empty_store\<rparr>"
  let ?two = "[gj_point (Some ''a'') 1 2, gj_null (Some ''b'')]"
  let ?cb = "empty_ctx\<lparr>store := store_createRenderBatch (store empty_ctx)\<rparr>"
  have h1: "filter (\<lambda>e. level e \<noteq> ''message'') (hint example_deps Other)
      = \<lparr>level = ''error'', message = ''The type property is required and was not found''\<rparr> # []"
    by (simp add: example_defs)
  have h2: "(\<forall>fs. Geometry \<lparr>gtype = ''Point'', gcoordinates = Arr []\<rparr> \<noteq> FeatureCollection fs)
      \<and> Geometry \<lparr>gtype = ''Point'', gcoordinates = Arr []\<rparr> \<noteq> Nullish"
    by simp
  have h3: "filter (\<lambda>e. level e \<noteq> ''message'') (hint example_deps ?gj) = []
       \<and> normalize ?gj = Some ([gj_point (Some ''a'') 1 2] @ gj_null (Some ''b'') # [gj_point (Some ''c'') 3 4])
       \<and> add_features example_deps empty_ctx [gj_point (Some ''a'') 1 2] = (?c1, Inr [''a''])
       \<and> add_feature example_deps ?c1 (gj_null (Some ''b''))
           = (?c1, Inl (Error ''Invalid geometry: null''))
       \<and> Error ''Invalid geometry: null'' \<noteq> NotAFeature"
    by (simp add: add_feature_def store_defs example_defs feature_defs gj_defs Let_def)
  have h4: "filter (\<lambda>e. level e \<noteq> ''message'')
        (hint example_deps (FeatureCollection [gj_bad_point (Some ''a'')]))
      = \<lparr>level = ''error'', message = ''position must be an array''\<rparr> # []"
    by (simp add: example_defs gj_defs)
  have add5: "api_add example_deps ?cb (FeatureCollection ?two)
      = (empty_ctx\<lparr>store := store_add (point_feature ''a'' 1 2)
                                (store_createRenderBatch empty_store)\<rparr>,
         Inl (Error ''Invalid geometry: null''))"
    by (simp add: api_add_def add_feature_def store_defs example_defs feature_defs gj_defs Let_def)
  then have h5: "snd (api_add example_deps ?cb (FeatureCollection ?two))
         = Inl (Error ''Invalid geometry: null'') \<and> Error ''Invalid geometry: null'' \<noteq> NotAFeature"
    by simp
  have w1: "api_add example_deps two_points_ctx Other
     = (two_points_ctx, Inl (Error ''The type property is required and was not found''))"
    using add_error_state [of example_deps Other _ "[]" two_points_ctx] h1 by simp
  have w2: "api_set example_deps two_points_ctx (Geometry \<lparr>gtype = ''Point'', gcoordinates = Arr []\<rparr>)
     = (two_points_ctx, Inl (Error ''Invalid FeatureCollection''))"
    using add_error_state [of example_deps "Geometry \<lparr>gtype = ''Point'', gcoordinates = Arr []\<rparr>"
        _ _ two_points_ctx] h2 by blast
  have w3: "api_add example_deps empty_ctx ?gj = (?c1, Inl (Error ''Invalid geometry: null''))"
    using add_error_state [of example_deps ?gj _ _ empty_ctx _ "[gj_point (Some ''a'') 1 2]"
        "gj_null (Some ''b'')" "[gj_point (Some ''c'') 3 4]" ?c1 "[''a'']" ?c1
        "Error ''Invalid geometry: null''"] h3 by blast
  have w4: "api_set example_deps two_points_ctx (FeatureCollection [gj_bad_point (Some ''a'')])
     = (two_points_ctx\<lparr>store := store_createRenderBatch (store two_points_ctx)\<rparr>,
        Inl (Error ''position must be an array''))"
    using add_error_state [where d = example_deps and fs = "[gj_bad_point (Some ''a'')]"
        and c = two_points_ctx and es = "[]"] h4 by simp
  have w5: "api_set example_deps empty_ctx (FeatureCollection ?two)
     = api_add example_deps ?cb (FeatureCollection ?two)"
    using add_error_state [where d = example_deps and fs = ?two and c = empty_ctx
        and e = "Error ''Invalid geometry: null''"] h5 by blast
  from w1 w2 w3 w4 w5 add5 show ?thesis by simp
qed

text \<open>
  C5. A second \<^verbatim>\<open>set\<close> of the same collection does not return the same ids when a
  feature carries no id: \<^verbatim>\<open>feature.id || hat()\<close> generates a new id in each call, and the
  feature of the first call is replaced by one under the new id.
\<close>

theorem set_twice_counterexample:
  "snd (api_set example_deps empty_ctx (FeatureCollection [gj_point None 1 2])) = Inr [''h'']
   \<and> snd (api_set example_deps
            (fst (api_set example_deps empty_ctx (FeatureCollection [gj_point None 1 2])))
            (FeatureCollection [gj_point None 1 2])) = Inr [''hh'']
   \<and> store_getAllIds (store
         (fst (api_set example_deps empty_ctx (FeatureCollection [gj_point None 1 2])))) = [''h'']
   \<and> store_getAllIds (store (fst (api_set example_deps
            (fst (api_set example_deps empty_ctx (FeatureCollection [gj_point None 1 2])))
            (FeatureCollection [gj_point None 1 2])))) = [''hh'']"
  by (simp add: api_set_def api_add_def api_delete_def api_getMode_def events_getMode_def
      add_feature_def normalize_def store_defs example_defs feature_defs gj_defs Let_def)

text \<open>
  C5, as amended. Let every feature of the collection carry a non-empty id, and let the
  store hold features of the supported geometry types only. When \<^verbatim>\<open>set\<close> returns, a
  second \<^verbatim>\<open>set\<close> of the same collection returns the same ids and changes nothing in the
  context but the count of renders: the stored features, their order and the selection
  are the same.
\<close>

theorem set_twice:
  assumes "\<forall>f\<in>set fs. \<exists>i. gid f = Some i \<and> i \<noteq> []"
    and "\<forall>i e. features (store c) i = Some e \<longrightarrow> own_model (ftype e) \<noteq> None"
    and "api_set d c (FeatureCollection fs) = (c1, Inr ids)"
  shows "api_set d c1 (FeatureCollection fs)
           = (c1\<lparr>store := (store c1)\<lparr>renders := Suc (renders (store c1))\<rparr>\<rparr>, Inr ids)
    \<and> snd (api_set d c1 (FeatureCollection fs)) = snd (api_set d c (FeatureCollection fs))
    \<and> features (store (fst (api_set d c1 (FeatureCollection fs)))) = features (store c1)
    \<and> store_getAllIds (store (fst (api_set d c1 (FeatureCollection fs)))) = store_getAllIds (store c1)
    \<and> store_getAll (store (fst (api_set d c1 (FeatureCollection fs)))) = store_getAll (store c1)
    \<and> store_getSelectedIds (store (fst (api_set d c1 (FeatureCollection fs))))
        = store_getSelectedIds (store c1)"
proof -
  have "\<forall>f\<in>set fs. feature_id f \<noteq> []"
    using assms(1) by (auto simp: feature_id_def)
  from set_again [OF this assms(2,3)] assms(3) show ?thesis
    by (simp add: store_getAllIds_def store_getAll_def store_getSelectedIds_def)
qed

theorem set_twice_witness:
  "snd (api_set example_deps two_points_ctx
          (FeatureCollection [gj_point (Some ''a'') 5 5, gj_point (Some ''c'') 7 7]))
     = Inr [''a'', ''c'']
   \<and> store_getAll (store (fst (api_set example_deps two_points_ctx
          (FeatureCollection [gj_point (Some ''a'') 5 5, gj_point (Some ''c'') 7 7]))))
     = [point_feature ''a'' 5 5, point_feature ''c'' 7 7]
   \<and> snd (api_set example_deps
          (fst (api_set example_deps two_points_ctx
            (FeatureCollection [gj_point (Some ''a'') 5 5, gj_point (Some ''c'') 7 7])))
          (FeatureCollection [gj_point (Some ''a'') 5 5, gj_point (Some ''c'') 7 7]))
     = Inr [''a'', ''c'']
   \<and> store_getAll (store (fst (api_set example_deps
          (fst (api_set example_deps two_points_ctx
            (FeatureCollection [gj_point (Some ''a'') 5 5, gj_point (Some ''c'') 7 7])))
          (FeatureCollection [gj_point (Some ''a'') 5 5, gj_point (Some ''c'') 7 7]))))
     = [point_feature ''a'' 5 5, point_feature ''c'' 7 7]"
proof -
  let ?X = "[gj_point (Some ''a'') 5 5, gj_point (Some ''c'') 7 7]"
  let ?c1 = "fst (api_set example_deps two_points_ctx (FeatureCollection ?X))"
  have h1: "\<forall>f\<in>set ?X. \<exists>i. gid f = Some i \<and> i \<noteq> []"
    by (simp add: gj_defs)
  have h2: "\<forall>i e. features (store two_points_ctx) i = Some e \<longrightarrow> own_model (ftype e) \<noteq> None"
    by (simp add: store_defs example_defs own_model_def)
  have r: "snd (api_set example_deps two_points_ctx (FeatureCollection ?X)) = Inr [''a'', ''c'']"
    by (simp add: api_set_def api_add_def api_delete_def api_getMode_def events_getMode_def
      add_feature_def normalize_def store_defs example_defs feature_defs gj_defs Let_def)
  have all: "store_getAll (store ?c1) = [point_feature ''a'' 5 5, point_feature ''c'' 7 7]"
    by (simp add: api_set_def api_add_def api_delete_def api_getMode_def events_getMode_def
      add_feature_def normalize_def store_defs example_defs feature_defs gj_defs Let_def
      List.map_filter_def)
  have h3: "api_set example_deps two_points_ctx (FeatureCollection ?X) = (?c1, Inr [''a'', ''c''])"
    using r by (simp add: prod_eq_iff)
  from set_twice [OF h1 h2 h3]
  have a: "snd (api_set example_deps ?c1 (FeatureCollection ?X))
      = snd (api_set example_deps two_points_ctx (FeatureCollection ?X))"
    and b: "store_getAll (store (fst (api_set example_deps ?c1 (FeatureCollection ?X))))
      = store_getAll (store ?c1)"
    by blast+
  from a b r all show ?thesis
    by (simp only: simp_thms)
qed

section \<open>Deleting and the mode controller\<close>

text \<open>
  C3. On a store whose selection is among its ids: when the silent deletion of
  \<^verbatim>\<open>delete\<close> leaves the selection empty in direct-select mode, the controller makes the
  full transition to simple-select and no render is requested; in every other case the
  mode and the transitions stay and a render is requested. \<^verbatim>\<open>deleteAll\<close> always leaves the
  selection empty, so it does the same on the mode alone. In particular, in direct-select
  mode with the selection \<open>[f]\<close>, \<^verbatim>\<open>delete([f])\<close> ends in simple-select with an empty
  selection.
\<close>

theorem delete_mode_escape:
  assumes inv: "set (selectedIds (store c)) \<subseteq> set (featureIds (store c))"
  shows
  "(events_mode c = DIRECT_SELECT \<and> selectedIds (store_delete ids True (store c)) = []
      \<longrightarrow> api_delete c ids
            = events_changeMode SIMPLE_SELECT None (c\<lparr>store := store_delete ids True (store c)\<rparr>)
          \<and> events_mode (api_delete c ids) = SIMPLE_SELECT
          \<and> renders (store (api_delete c ids)) = renders (store c))
   \<and> (\<not> (events_mode c = DIRECT_SELECT \<and> selectedIds (store_delete ids True (store c)) = [])
      \<longrightarrow> api_delete c ids = c\<lparr>store := store_render (store_delete ids True (store c))\<rparr>
          \<and> events_mode (api_delete c ids) = events_mode c
          \<and> events_transitions (api_delete c ids) = events_transitions c)
   \<and> selectedIds (store (api_deleteAll c)) = []
   \<and> (events_mode c = DIRECT_SELECT
      \<longrightarrow> api_deleteAll c
            = events_changeMode SIMPLE_SELECT None
                (c\<lparr>store := store_delete (featureIds (store c)) True (store c)\<rparr>)
          \<and> events_mode (api_deleteAll c) = SIMPLE_SELECT
          \<and> renders (store (api_deleteAll c)) = renders (store c))
   \<and> (events_mode c \<noteq> DIRECT_SELECT
      \<longrightarrow> api_deleteAll c
            = c\<lparr>store := store_render (store_delete (featureIds (store c)) True (store c))\<rparr>
          \<and> events_mode (api_deleteAll c) = events_mode c
          \<and> events_transitions (api_deleteAll c) = events_transitions c)
   \<and> (events_mode c = DIRECT_SELECT \<and> selectedIds (store c) = [f]
      \<longrightarrow> events_mode (api_delete c [f]) = SIMPLE_SELECT
          \<and> selectedIds (store (api_delete c [f])) = [])"
proof -
  have sel: "filter (\<lambda>i. i \<notin> set (featureIds (store c))) (selectedIds (store c)) = []"
    using inv by (auto simp: filter_empty_conv)
  have d1: "events_mode c = DIRECT_SELECT \<and> selectedIds (store_delete ids True (store c)) = []
      \<longrightarrow> api_delete c ids
            = events_changeMode SIMPLE_SELECT None (c\<lparr>store := store_delete ids True (store c)\<rparr>)
          \<and> events_mode (api_delete c ids) = SIMPLE_SELECT
          \<and> renders (store (api_delete c ids)) = renders (store c)"
    by (simp add: api_delete_def api_getMode_def events_getMode_def events_changeMode_def
        store_defs Let_def)
  have d2: "\<not> (events_mode c = DIRECT_SELECT \<and> selectedIds (store_delete ids True (store c)) = [])
      \<longrightarrow> api_delete c ids = c\<lparr>store := store_render (store_delete ids True (store c))\<rparr>
          \<and> events_mode (api_delete c ids) = events_mode c
          \<and> events_transitions (api_delete c ids) = events_transitions c"
    by (simp add: api_delete_def api_getMode_def events_getMode_def events_changeMode_def
        store_getSelectedIds_def Let_def)
  have a0: "selectedIds (store (api_deleteAll c)) = []"
    using sel
    by (simp add: api_deleteAll_def api_getMode_def events_getMode_def events_changeMode_def
        store_defs Let_def)
  have a1: "events_mode c = DIRECT_SELECT
      \<longrightarrow> api_deleteAll c
            = events_changeMode SIMPLE_SELECT None
                (c\<lparr>store := store_delete (featureIds (store c)) True (store c)\<rparr>)
          \<and> events_mode (api_deleteAll c) = SIMPLE_SELECT
          \<and> renders (store (api_deleteAll c)) = renders (store c)"
    by (simp add: api_deleteAll_def api_getMode_def events_getMode_def events_changeMode_def
        store_defs Let_def)
  have a2: "events_mode c \<noteq> DIRECT_SELECT
      \<longrightarrow> api_deleteAll c
            = c\<lparr>store := store_render (store_delete (featureIds (store c)) True (store c))\<rparr>
          \<and> events_mode (api_deleteAll c) = events_mode c
          \<and> events_transitions (api_deleteAll c) = events_transitions c"
    by (simp add: api_deleteAll_def api_getMode_def events_getMode_def events_changeMode_def
        store_getAllIds_def Let_def)
  have p: "events_mode c = DIRECT_SELECT \<and> selectedIds (store c) = [f]
      \<longrightarrow> events_mode (api_delete c [f]) = SIMPLE_SELECT
          \<and> selectedIds (store (api_delete c [f])) = []"
    by (simp add: api_delete_def api_getMode_def events_getMode_def events_changeMode_def
        store_defs Let_def)
  from d1 d2 a0 a1 a2 p show ?thesis by blast
qed

theorem delete_mode_escape_witness:
  "events_mode (api_delete direct_ctx [''a'']) = SIMPLE_SELECT
   \<and> selectedIds (store (api_delete direct_ctx [''a''])) = []
   \<and> renders (store (api_delete direct_ctx [''a''])) = 0
   \<and> events_mode (api_delete direct_ctx [''b'']) = DIRECT_SELECT
   \<and> renders (store (api_delete direct_ctx [''b''])) = 1
   \<and> events_mode (api_deleteAll direct_ctx) = SIMPLE_SELECT
   \<and> selectedIds (store (api_deleteAll direct_ctx)) = []
   \<and> renders (store (api_deleteAll selected_ctx)) = 1"
proof -
  have inv: "set (selectedIds (store direct_ctx)) \<subseteq> set (featureIds (store direct_ctx))"
    by (simp add: direct_ctx_def store_defs example_defs)
  have inv2: "set (selectedIds (store selected_ctx)) \<subseteq> set (featureIds (store selected_ctx))"
    by (simp add: selected_ctx_def store_defs example_defs)
  have facts: "events_mode direct_ctx = DIRECT_SELECT"
      "selectedIds (store direct_ctx) = [''a'']"
      "selectedIds (store_delete [''a''] True (store direct_ctx)) = []"
      "selectedIds (store_delete [''b''] True (store direct_ctx)) = [''a'']"
      "renders (store direct_ctx) = 0"
      "events_mode selected_ctx \<noteq> DIRECT_SELECT"
      "renders (store_render (store_delete [''b''] True (store direct_ctx))) = 1"
      "renders (store_render (store_delete (featureIds (store selected_ctx)) True (store selected_ctx))) = 1"
    by (simp_all add: direct_ctx_def selected_ctx_def store_defs example_defs)
  have w1: "events_mode (api_delete direct_ctx [''a'']) = SIMPLE_SELECT
      \<and> selectedIds (store (api_delete direct_ctx [''a''])) = []
      \<and> renders (store (api_delete direct_ctx [''a''])) = 0"
    using delete_mode_escape [OF inv, of "[''a'']" "''a''"] facts(1,2,3,5) by auto
  have w2: "events_mode (api_delete direct_ctx [''b'']) = DIRECT_SELECT
      \<and> renders (store (api_delete direct_ctx [''b''])) = 1"
    using delete_mode_escape [OF inv, of "[''b'']" "''a''"] facts(1,4,7) by auto
  have w3: "events_mode (api_deleteAll direct_ctx) = SIMPLE_SELECT
      \<and> selectedIds (store (api_deleteAll direct_ctx)) = []"
    using delete_mode_escape [OF inv, of "[]" "''a''"] facts(1) by blast
  have w4: "renders (store (api_deleteAll selected_ctx)) = 1"
    using delete_mode_escape [OF inv2, of "[]" "''a''"] facts(6,8) by auto
  from w1 w2 w3 w4 show ?thesis by blast
qed

text \<open>
  C7. In simple-select mode, a request for simple-select whose feature ids are, as a set,
  the selection changes nothing; with any other ids it sets the selection on the store
  and requests a render, and the controller sees no transition.
\<close>

theorem changeMode_simple_select:
  assumes "events_mode c = SIMPLE_SELECT"
  shows
  "(set (case opt_featureIds modeOptions of None \<Rightarrow> [] | Some xs \<Rightarrow> xs)
      = set (selectedIds (store c))
      \<longrightarrow> api_changeMode c SIMPLE_SELECT modeOptions = c)
   \<and> (set (case opt_featureIds modeOptions of None \<Rightarrow> [] | Some xs \<Rightarrow> xs)
      \<noteq> set (selectedIds (store c))
      \<longrightarrow> api_changeMode c SIMPLE_SELECT modeOptions
            = c\<lparr>store := store_render (store_setSelected (opt_featureIds modeOptions) (store c))\<rparr>
          \<and> events_mode (api_changeMode c SIMPLE_SELECT modeOptions) = SIMPLE_SELECT
          \<and> events_transitions (api_changeMode c SIMPLE_SELECT modeOptions)
              = events_transitions c)"
  using assms
  by (simp add: api_changeMode_def api_getMode_def events_getMode_def stringSetsAreEqual_def
      store_getSelectedIds_def)

theorem changeMode_simple_select_witness:
  "api_changeMode selected_ctx SIMPLE_SELECT \<lparr>opt_featureIds = Some [''a'', ''a''], opt_featureId = None\<rparr>
     = selected_ctx
   \<and> selectedIds (store (api_changeMode selected_ctx SIMPLE_SELECT
         \<lparr>opt_featureIds = Some [''b'', ''zz''], opt_featureId = None\<rparr>)) = [''b'']
   \<and> renders (store (api_changeMode selected_ctx SIMPLE_SELECT
         \<lparr>opt_featureIds = Some [''b'', ''zz''], opt_featureId = None\<rparr>)) = 1
   \<and> events_transitions (api_changeMode selected_ctx SIMPLE_SELECT
         \<lparr>opt_featureIds = Some [''b'', ''zz''], opt_featureId = None\<rparr>) = []"
proof -
  have m: "events_mode selected_ctx = SIMPLE_SELECT"
    by (simp add: selected_ctx_def example_defs)
  have facts: "selectedIds (store selected_ctx) = [''a'']"
      "events_transitions selected_ctx = []"
      "selectedIds (store_render (store_setSelected (Some [''b'', ''zz'']) (store selected_ctx))) = [''b'']"
      "renders (store_render (store_setSelected (Some [''b'', ''zz'']) (store selected_ctx))) = 1"
    by (simp_all add: selected_ctx_def store_defs example_defs)
  from changeMode_simple_select [OF m, of "\<lparr>opt_featureIds = Some [''a'', ''a''], opt_featureId = None\<rparr>"]
       changeMode_simple_select [OF m, of "\<lparr>opt_featureIds = Some [''b'', ''zz''], opt_featureId = None\<rparr>"]
       facts
  show ?thesis by simp
qed

end
